theory Spec2Isabelle
  imports Complex_Main "HOL-Library.AList" "HOL-Library.Sublist" "HOL-Library.Log_Nat"
begin

section \<open>Python values used by \<^verbatim>\<open>forex_scanner.py\<close>\<close>

subsection \<open>Strings\<close>

text \<open>
  A Python \<^verbatim>\<open>str\<close> is a sequence of Unicode code points, and \<^verbatim>\<open>len\<close> (which the
  padding of the table columns uses) counts code points. A string is therefore a list of
  code points; \<open>ascii\<close> embeds an ASCII literal.
\<close>

type_synonym pystr = "nat list"

definition ascii :: "string \<Rightarrow> pystr" where
  "ascii s = map of_char s"

text \<open>
  \<^verbatim>\<open>str.upper()\<close> maps every code point on its own. The ASCII range is written out; the
  upper-case mapping of the other code points is the Unicode table of the interpreter,
  a parameter \<open>tbl\<close> (a code point may map to several, as U+00DF does).
\<close>

definition upper_cp :: "(nat \<Rightarrow> nat list) \<Rightarrow> nat \<Rightarrow> nat list" where
  "upper_cp tbl c =
     (if 97 \<le> c \<and> c \<le> 122 then [c - 32] else if c < 128 then [c] else tbl c)"

definition str_upper :: "(nat \<Rightarrow> nat list) \<Rightarrow> pystr \<Rightarrow> pystr" where
  "str_upper tbl s = concat (map (upper_cp tbl) s)"

text \<open>\<^verbatim>\<open>str(i)\<close> for an integer: its decimal digits, after a minus sign when negative.\<close>

function str_digits :: "int \<Rightarrow> pystr" where
  "str_digits n =
     (if n < 10 then [nat (48 + n)] else str_digits (n div 10) @ [nat (48 + n mod 10)])"
  by pat_completeness auto
termination
  by (relation "measure nat") auto

declare str_digits.simps [simp del]

definition str_int :: "int \<Rightarrow> pystr" where
  "str_int i = (if i < 0 then 45 # str_digits (- i) else str_digits i)"

definition str_nat :: "nat \<Rightarrow> pystr" where
  "str_nat n = str_int (int n)"

text \<open>The format specifications \<^verbatim>\<open><15\<close>, \<^verbatim>\<open><12\<close> and \<^verbatim>\<open><20\<close> applied to a string:
  pad with spaces on the right up to the width, never truncate.\<close>

definition ljust :: "nat \<Rightarrow> pystr \<Rightarrow> pystr" where
  "ljust w s = s @ replicate (w - length s) 32"

text \<open>Left padding with the digit zero, for the fractional part of a fixed-point number.\<close>

definition zfill :: "nat \<Rightarrow> pystr \<Rightarrow> pystr" where
  "zfill w s = replicate (w - length s) 48 @ s"

subsection \<open>Floating-point numbers\<close>

text \<open>
  A Python \<^verbatim>\<open>float\<close> is an IEEE 754 binary64 number: a sign and a magnitude (a rational
  of the form \<open>m * 2 ^ e\<close> with \<open>m < 2 ^ 53\<close> and \<open>- 1074 \<le> e\<close>, below \<open>2 ^ 1024\<close>), an
  infinity with its sign, or a NaN. The sign is \<open>True\<close> for a negative number, so
  that \<open>Finite True 0\<close> is \<^verbatim>\<open>-0.0\<close>.
\<close>

datatype pyfloat = Finite bool rat | Infinity bool | NaN

definition pow2 :: "int \<Rightarrow> rat" where
  "pow2 k = (if 0 \<le> k then 2 ^ nat k else 1 / 2 ^ nat (- k))"

text \<open>\<open>floor_log2 q\<close> is the integer \<open>e\<close> with \<open>2 ^ e \<le> q < 2 ^ (e + 1)\<close>, for \<open>0 < q\<close>.\<close>

definition floor_log2 :: "rat \<Rightarrow> int" where
  "floor_log2 q =
     (if 1 \<le> q then int (floorlog 2 (nat \<lfloor>q\<rfloor>)) - 1
      else - int (floorlog 2 (nat (\<lceil>1 / q\<rceil> - 1))))"

definition round_half_even :: "rat \<Rightarrow> int" where
  "round_half_even q =
     (let f = \<lfloor>q\<rfloor>; d = q - of_int f
      in if d < 1 / 2 then f else if 1 / 2 < d then f + 1
         else if even f then f else f + 1)"

text \<open>
  Rounding of a non-negative exact result to binary64, to nearest with ties to even:
  the unit in the last place is \<open>2 ^ (e - 52)\<close> for a normal number and \<open>2 ^ (- 1074)\<close>
  for a subnormal one. \<open>None\<close> is overflow: the rounded value has reached \<open>2 ^ 1024\<close>.
\<close>

definition round_mag :: "rat \<Rightarrow> rat option" where
  "round_mag q =
     (if q = 0 then Some 0
      else let ulp = pow2 (max (floor_log2 q - 52) (- 1074));
               r = of_int (round_half_even (q / ulp)) * ulp
           in if 1024 \<le> floor_log2 r then None else Some r)"

definition float_of_rat :: "rat \<Rightarrow> pyfloat" where
  "float_of_rat q =
     (case round_mag \<bar>q\<bar> of None \<Rightarrow> Infinity (q < 0) | Some r \<Rightarrow> Finite (q < 0) r)"

fun float_neg :: "pyfloat \<Rightarrow> pyfloat" where
  "float_neg (Finite s m) = Finite (\<not> s) m"
| "float_neg (Infinity s) = Infinity (\<not> s)"
| "float_neg NaN = NaN"

fun float_abs :: "pyfloat \<Rightarrow> pyfloat" where
  "float_abs (Finite s m) = Finite False m"
| "float_abs (Infinity s) = Infinity False"
| "float_abs NaN = NaN"

fun signed :: "bool \<Rightarrow> rat \<Rightarrow> rat" where
  "signed s m = (if s then - m else m)"

fun float_mul :: "pyfloat \<Rightarrow> pyfloat \<Rightarrow> pyfloat" where
  "float_mul NaN y = NaN"
| "float_mul x NaN = NaN"
| "float_mul (Infinity s) (Infinity t) = Infinity (s \<noteq> t)"
| "float_mul (Infinity s) (Finite t m) = (if m = 0 then NaN else Infinity (s \<noteq> t))"
| "float_mul (Finite s m) (Infinity t) = (if m = 0 then NaN else Infinity (s \<noteq> t))"
| "float_mul (Finite s m) (Finite t n) =
     (case round_mag (m * n) of None \<Rightarrow> Infinity (s \<noteq> t) | Some r \<Rightarrow> Finite (s \<noteq> t) r)"

fun float_add :: "pyfloat \<Rightarrow> pyfloat \<Rightarrow> pyfloat" where
  "float_add NaN y = NaN"
| "float_add x NaN = NaN"
| "float_add (Infinity s) (Infinity t) = (if s = t then Infinity s else NaN)"
| "float_add (Infinity s) (Finite t m) = Infinity s"
| "float_add (Finite s m) (Infinity t) = Infinity t"
| "float_add (Finite s m) (Finite t n) =
     (let v = signed s m + signed t n
      in if v = 0 then Finite (s \<and> t) 0 else float_of_rat v)"

definition float_sub :: "pyfloat \<Rightarrow> pyfloat \<Rightarrow> pyfloat" where
  "float_sub x y = float_add x (float_neg y)"

fun float_gt :: "pyfloat \<Rightarrow> pyfloat \<Rightarrow> bool" where
  "float_gt NaN y = False"
| "float_gt x NaN = False"
| "float_gt (Infinity s) (Infinity t) = (\<not> s \<and> t)"
| "float_gt (Infinity s) (Finite t m) = (\<not> s)"
| "float_gt (Finite s m) (Infinity t) = t"
| "float_gt (Finite s m) (Finite t n) = (signed t n < signed s m)"

text \<open>
  The format specification \<^verbatim>\<open>.<d>f\<close>: the exact value rounded to \<open>d\<close> decimals
  (ties to even), the sign kept even when the digits are all zero.
\<close>

fun format_f :: "nat \<Rightarrow> pyfloat \<Rightarrow> pystr" where
  "format_f d NaN = ascii ''nan''"
| "format_f d (Infinity s) = (if s then ascii ''-inf'' else ascii ''inf'')"
| "format_f d (Finite s m) =
     (let n = round_half_even (m * 10 ^ d)
      in (if s then [45] else []) @ str_int (n div 10 ^ d)
         @ (if d = 0 then [] else 46 # zfill d (str_int (n mod 10 ^ d))))"

subsection \<open>Exceptions\<close>

text \<open>
  The exception classes that decide a control path of the scanner. \<open>RequestException\<close>
  stands for \<^verbatim>\<open>requests.exceptions.RequestException\<close> and every subclass of it (time-out,
  connection error, the \<^verbatim>\<open>HTTPError\<close> of \<^verbatim>\<open>raise_for_status\<close>, and the
  \<^verbatim>\<open>JSONDecodeError\<close> of the \<^verbatim>\<open>requests\<close> library); \<open>JSONDecodeError\<close> is
  \<^verbatim>\<open>json.JSONDecodeError\<close> itself. A raised exception is the left summand of a result.
\<close>

datatype pyexn =
    RequestException
  | JSONDecodeError
  | KeyError pystr
  | ValueError
  | TypeError
  | OverflowError

definition exn_bind :: "pyexn + 'a \<Rightarrow> ('a \<Rightarrow> pyexn + 'b) \<Rightarrow> pyexn + 'b" where
  "exn_bind m f = (case m of Inl e \<Rightarrow> Inl e | Inr x \<Rightarrow> f x)"

subsection \<open>Decoded JSON\<close>

text \<open>
  What \<^verbatim>\<open>response.json()\<close> returns: \<^verbatim>\<open>None\<close>, a \<^verbatim>\<open>bool\<close>, an \<^verbatim>\<open>int\<close>, a
  \<^verbatim>\<open>float\<close>, a \<^verbatim>\<open>str\<close>, a \<^verbatim>\<open>list\<close> or a \<^verbatim>\<open>dict\<close> with string keys (an
  association list in insertion order).
\<close>

datatype json =
    JNull
  | JBool bool
  | JInt int
  | JFloat pyfloat
  | JStr pystr
  | JList "json list"
  | JObj "(pystr \<times> json) list"

text \<open>
  The operator \<^verbatim>\<open>k in data\<close> for a string \<open>k\<close>: key membership in a dict, element
  membership in a list, substring test in a string, \<^verbatim>\<open>TypeError\<close> otherwise.
\<close>

fun py_in :: "pystr \<Rightarrow> json \<Rightarrow> pyexn + bool" where
  "py_in k (JObj kvs) = Inr (k \<in> set (map fst kvs))"
| "py_in k (JList xs) = Inr (JStr k \<in> set xs)"
| "py_in k (JStr s) = Inr (sublist k s)"
| "py_in k JNull = Inl TypeError"
| "py_in k (JBool b) = Inl TypeError"
| "py_in k (JInt i) = Inl TypeError"
| "py_in k (JFloat x) = Inl TypeError"

text \<open>
  The subscript \<^verbatim>\<open>data[k]\<close> for a string \<open>k\<close>: the value of a dict, \<^verbatim>\<open>KeyError\<close>
  when the key is missing, \<^verbatim>\<open>TypeError\<close> on anything that is not a dict.
\<close>

fun py_getitem :: "json \<Rightarrow> pystr \<Rightarrow> pyexn + json" where
  "py_getitem (JObj kvs) k = (case map_of kvs k of None \<Rightarrow> Inl (KeyError k) | Some v \<Rightarrow> Inr v)"
| "py_getitem JNull k = Inl TypeError"
| "py_getitem (JBool b) k = Inl TypeError"
| "py_getitem (JInt i) k = Inl TypeError"
| "py_getitem (JFloat x) k = Inl TypeError"
| "py_getitem (JStr s) k = Inl TypeError"
| "py_getitem (JList xs) k = Inl TypeError"

subsection \<open>Built-in functions of the interpreter\<close>

text \<open>
  Built-in behaviour that the scanner calls and that is not part of its source is a field
  of \<open>runtime\<close>: the upper-case table of the code points outside ASCII, \<^verbatim>\<open>float(s)\<close>
  on a string (\<open>None\<close> when it raises \<^verbatim>\<open>ValueError\<close>), \<^verbatim>\<open>repr\<close> of a float, and
  the exception, if any, that \<^verbatim>\<open>time.sleep\<close> raises on its argument.
\<close>

record runtime =
  upper_table :: "nat \<Rightarrow> nat list"
  float_of_str :: "pystr \<Rightarrow> pyfloat option"
  float_repr :: "pyfloat \<Rightarrow> pystr"
  sleep_error :: "pyfloat \<Rightarrow> pyexn option"

text \<open>
  \<^verbatim>\<open>float(v)\<close> on a decoded JSON value: a string is parsed, a float is itself, an
  integer is rounded to the nearest float (\<^verbatim>\<open>OverflowError\<close> when too large), a bool
  is 1.0 or 0.0, anything else is a \<^verbatim>\<open>TypeError\<close>.
\<close>

fun py_float :: "runtime \<Rightarrow> json \<Rightarrow> pyexn + pyfloat" where
  "py_float rt (JStr s) = (case float_of_str rt s of None \<Rightarrow> Inl ValueError | Some x \<Rightarrow> Inr x)"
| "py_float rt (JFloat x) = Inr x"
| "py_float rt (JInt i) =
     (case round_mag \<bar>of_int i\<bar> of None \<Rightarrow> Inl OverflowError | Some r \<Rightarrow> Inr (Finite (i < 0) r))"
| "py_float rt (JBool b) = Inr (Finite False (if b then 1 else 0))"
| "py_float rt JNull = Inl TypeError"
| "py_float rt (JList xs) = Inl TypeError"
| "py_float rt (JObj kvs) = Inl TypeError"

subsection \<open>The network and the console\<close>

record request =
  url :: pystr
  param_function :: pystr
  param_from_currency :: pystr
  param_to_currency :: pystr
  param_apikey :: pystr
  timeout :: nat

text \<open>
  A response has a status code and a body; \<open>body\<close> is what \<^verbatim>\<open>response.json()\<close> does,
  raise or return the decoded value. \<^verbatim>\<open>requests.get\<close> raises or returns a response.
\<close>

record response =
  status_code :: nat
  body :: "pyexn + json"

type_synonym http_result = "pyexn + response"

text \<open>
  Everything a method does to the outside, in order: the request it sends, the pause it
  makes, the text it writes to standard output. The four diagnostics that interpolate an
  arbitrary object (\<^verbatim>\<open>{data['Error Message']}\<close>, \<^verbatim>\<open>{data['Note']}\<close>, \<^verbatim>\<open>{e}\<close>) keep
  the object instead of its text.
\<close>

datatype event =
    Http_get request
  | Sleep pyfloat
  | Write pystr
  | Write_error json
  | Write_api_limit json
  | Write_network_error pyexn
  | Write_parsing_error pyexn

definition print :: "pystr \<Rightarrow> event" where
  "print s = Write (s @ [10])"

definition raise_for_status :: "response \<Rightarrow> pyexn + unit" where
  "raise_for_status r =
     (if 400 \<le> status_code r \<and> status_code r < 600 then Inl RequestException else Inr ())"

section \<open>The class \<^verbatim>\<open>ForexScanner\<close>\<close>

record scanner =
  api_key :: pystr
  cache :: "(pystr \<times> json) list"

definition BASE_URL :: pystr where
  "BASE_URL = ascii ''https://www.alphavantage.co/query''"

definition init :: "pystr \<Rightarrow> scanner" where
  "init key = \<lparr>api_key = key, cache = []\<rparr>"

subsection \<open>\<^verbatim>\<open>get_exchange_rate\<close>\<close>

text \<open>
  The dictionary that a successful call returns. The two codes, the two names, the time
  stamp and the time zone are whatever values the response holds under their keys.
\<close>

record rate_record =
  from_code :: json
  from_name :: json
  to_code :: json
  to_name :: json
  rate :: pyfloat
  last_refreshed :: json
  timezone :: json
  bid :: pyfloat
  ask :: pyfloat

definition key_error_message :: pystr where
  "key_error_message = ascii ''Error Message''"

definition key_note :: pystr where
  "key_note = ascii ''Note''"

definition key_quote :: pystr where
  "key_quote = ascii ''Realtime Currency Exchange Rate''"

text \<open>The dictionary display of lines 67 to 77: the entries are evaluated in order, and
  the first one that raises ends the evaluation.\<close>

definition build_record :: "runtime \<Rightarrow> json \<Rightarrow> pyexn + rate_record" where
  "build_record rt rate_data =
     exn_bind (py_getitem rate_data (ascii ''1. From_Currency Code'')) (\<lambda>v1.
     exn_bind (py_getitem rate_data (ascii ''2. From_Currency Name'')) (\<lambda>v2.
     exn_bind (py_getitem rate_data (ascii ''3. To_Currency Code'')) (\<lambda>v3.
     exn_bind (py_getitem rate_data (ascii ''4. To_Currency Name'')) (\<lambda>v4.
     exn_bind (exn_bind (py_getitem rate_data (ascii ''5. Exchange Rate'')) (py_float rt)) (\<lambda>v5.
     exn_bind (py_getitem rate_data (ascii ''6. Last Refreshed'')) (\<lambda>v6.
     exn_bind (py_getitem rate_data (ascii ''7. Time Zone'')) (\<lambda>v7.
     exn_bind (exn_bind (py_getitem rate_data (ascii ''8. Bid Price'')) (py_float rt)) (\<lambda>v8.
     exn_bind (exn_bind (py_getitem rate_data (ascii ''9. Ask Price'')) (py_float rt)) (\<lambda>v9.
     Inr \<lparr>from_code = v1, from_name = v2, to_code = v3, to_name = v4, rate = v5,
          last_refreshed = v6, timezone = v7, bid = v8, ask = v9\<rparr>)))))))))"

text \<open>
  The body of the \<^verbatim>\<open>try\<close> statement, from the response of \<^verbatim>\<open>requests.get\<close> on: the
  exception that leaves it, or what it writes and returns.
\<close>

definition try_block ::
  "runtime \<Rightarrow> http_result \<Rightarrow> pystr \<Rightarrow> pystr \<Rightarrow> pyexn + (event list \<times> rate_record option)"
where
  "try_block rt got from_currency to_currency =
     exn_bind got (\<lambda>response.
     exn_bind (raise_for_status response) (\<lambda>_.
     exn_bind (body response) (\<lambda>data.
     exn_bind (py_in key_error_message data) (\<lambda>has_error.
     if has_error
     then exn_bind (py_getitem data key_error_message) (\<lambda>msg. Inr ([Write_error msg], None))
     else
     exn_bind (py_in key_note data) (\<lambda>has_note.
     if has_note
     then exn_bind (py_getitem data key_note) (\<lambda>msg. Inr ([Write_api_limit msg], None))
     else
     exn_bind (py_in key_quote data) (\<lambda>has_quote.
     if \<not> has_quote
     then Inr ([print (10060 # ascii '' Invalid response for '' @ from_currency
                  @ ascii ''/'' @ to_currency)], None)
     else
     exn_bind (py_getitem data key_quote) (\<lambda>rate_data.
     exn_bind (build_record rt rate_data) (\<lambda>r. Inr ([], Some r)))))))))"

text \<open>The second \<^verbatim>\<open>except\<close> clause: \<^verbatim>\<open>(KeyError, ValueError, json.JSONDecodeError)\<close>.\<close>

fun is_parsing_error :: "pyexn \<Rightarrow> bool" where
  "is_parsing_error (KeyError k) = True"
| "is_parsing_error ValueError = True"
| "is_parsing_error JSONDecodeError = True"
| "is_parsing_error RequestException = False"
| "is_parsing_error TypeError = False"
| "is_parsing_error OverflowError = False"

text \<open>
  The method: \<open>request_for\<close> is the request that it sends (the base address, the
  dictionary \<^verbatim>\<open>params\<close> and the time-out), and \<open>http\<close> is how the network answers. The
  result is the events of the call and either the exception that leaves the method or
  the value it returns (\<open>None\<close> for \<^verbatim>\<open>None\<close>).
\<close>

definition request_for :: "scanner \<Rightarrow> runtime \<Rightarrow> pystr \<Rightarrow> pystr \<Rightarrow> request" where
  "request_for self rt from_currency to_currency =
     \<lparr>url = BASE_URL,
      param_function = ascii ''CURRENCY_EXCHANGE_RATE'',
      param_from_currency = str_upper (upper_table rt) from_currency,
      param_to_currency = str_upper (upper_table rt) to_currency,
      param_apikey = api_key self,
      timeout = 10\<rparr>"

definition get_exchange_rate ::
  "scanner \<Rightarrow> runtime \<Rightarrow> (request \<Rightarrow> http_result) \<Rightarrow> pystr \<Rightarrow> pystr
     \<Rightarrow> event list \<times> (pyexn + rate_record option)"
where
  "get_exchange_rate self rt http from_currency to_currency =
     (let params = request_for self rt from_currency to_currency
      in case try_block rt (http params) from_currency to_currency of
           Inr (out, r) \<Rightarrow> (Http_get params # out, Inr r)
         | Inl e \<Rightarrow>
             if e = RequestException then ([Http_get params, Write_network_error e], Inr None)
             else if is_parsing_error e then ([Http_get params, Write_parsing_error e], Inr None)
             else ([Http_get params], Inl e))"

subsection \<open>\<^verbatim>\<open>scan_pairs\<close>\<close>

text \<open>
  The result dictionary keeps insertion order: an association list with distinct keys, on
  which \<^verbatim>\<open>results[k] = v\<close> is \<open>AList.update k v\<close> (a new key goes to the end, an old key
  keeps its place and takes the new value).
\<close>

type_synonym results = "(pystr \<times> rate_record) list"

text \<open>
  The network of one run: \<open>net k\<close> is how it answers the request that is sent after \<open>k\<close>
  earlier ones.
\<close>

type_synonym network = "nat \<Rightarrow> request \<Rightarrow> http_result"

definition pair_name :: "pystr \<Rightarrow> pystr \<Rightarrow> pystr" where
  "pair_name from_curr to_curr = from_curr @ ascii ''/'' @ to_curr"

text \<open>
  One pass through the body of the \<^verbatim>\<open>for\<close> loop, for the pair at position \<open>idx\<close>
  (counted from 1): the events, and the exception that ends the scan or the dictionary
  after the pass.
\<close>

definition loop_body ::
  "scanner \<Rightarrow> runtime \<Rightarrow> (request \<Rightarrow> http_result) \<Rightarrow> pyfloat \<Rightarrow> nat \<Rightarrow> nat
     \<Rightarrow> pystr \<times> pystr \<Rightarrow> results \<Rightarrow> event list \<times> (pyexn + results)"
where
  "loop_body self rt http delay total_pairs idx pair results =
     (let from_curr = fst pair; to_curr = snd pair;
          name = pair_name from_curr to_curr;
          progress = Write (ascii ''['' @ str_nat idx @ ascii ''/'' @ str_nat total_pairs
                        @ ascii ''] Fetching '' @ name @ ascii ''...'' @ ascii '' '');
          (out, got) = get_exchange_rate self rt http from_curr to_curr
      in case got of
           Inl e \<Rightarrow> (progress # out, Inl e)
         | Inr rate_data \<Rightarrow>
             (let results' = (case rate_data of
                                Some r \<Rightarrow> AList.update name r results
                              | None \<Rightarrow> results);
                  line = (case rate_data of
                            Some r \<Rightarrow> print (10003 # ascii '' '' @ format_f 4 (rate r))
                          | None \<Rightarrow> print (10007 # ascii '' Failed''))
              in if idx < total_pairs
                 then (case sleep_error rt delay of
                         Some e \<Rightarrow> (progress # out @ [line], Inl e)
                       | None \<Rightarrow> (progress # out @ [line, Sleep delay], Inr results'))
                 else (progress # out @ [line], Inr results')))"

fun scan_loop ::
  "scanner \<Rightarrow> runtime \<Rightarrow> network \<Rightarrow> pyfloat \<Rightarrow> nat \<Rightarrow> nat
     \<Rightarrow> (pystr \<times> pystr) list \<Rightarrow> results \<Rightarrow> event list \<times> (pyexn + results)"
where
  "scan_loop self rt net delay total_pairs idx [] results = ([], Inr results)"
| "scan_loop self rt net delay total_pairs idx (pair # rest) results =
     (case loop_body self rt (net 0) delay total_pairs idx pair results of
        (evs, Inl e) \<Rightarrow> (evs, Inl e)
      | (evs, Inr results') \<Rightarrow>
          (case scan_loop self rt (\<lambda>k. net (Suc k)) delay total_pairs (Suc idx) rest results' of
             (evs', res) \<Rightarrow> (evs @ evs', res)))"

definition scan_pairs ::
  "scanner \<Rightarrow> runtime \<Rightarrow> network \<Rightarrow> (pystr \<times> pystr) list \<Rightarrow> pyfloat
     \<Rightarrow> event list \<times> (pyexn + results)"
where
  "scan_pairs self rt net currency_pairs delay =
     (let total_pairs = length currency_pairs;
          banner = [print (10 # replicate 70 61),
                    print (128269 # ascii '' FOREX SCANNER - Starting scan of ''
                             @ str_nat total_pairs @ ascii '' currency pairs''),
                    print (replicate 70 61 @ [10])]
      in case scan_loop self rt net delay total_pairs 1 currency_pairs [] of
           (evs, res) \<Rightarrow> (banner @ evs, res))"

subsection \<open>\<^verbatim>\<open>display_results\<close>\<close>

text \<open>
  The format specification \<^verbatim>\<open><20\<close> applied to the value stored under
  \<^verbatim>\<open>last_refreshed\<close>: a string is padded, a number is written as a number and padded
  (a bool as 1 or 0), and \<^verbatim>\<open>None\<close>, a list or a dict raise \<^verbatim>\<open>TypeError\<close>.
\<close>

fun format_left20 :: "runtime \<Rightarrow> json \<Rightarrow> pyexn + pystr" where
  "format_left20 rt (JStr s) = Inr (ljust 20 s)"
| "format_left20 rt (JInt i) = Inr (ljust 20 (str_int i))"
| "format_left20 rt (JBool b) = Inr (ljust 20 (if b then ascii ''1'' else ascii ''0''))"
| "format_left20 rt (JFloat x) = Inr (ljust 20 (float_repr rt x))"
| "format_left20 rt JNull = Inl TypeError"
| "format_left20 rt (JList xs) = Inl TypeError"
| "format_left20 rt (JObj kvs) = Inl TypeError"

definition table_row :: "runtime \<Rightarrow> pystr \<times> rate_record \<Rightarrow> pyexn + event" where
  "table_row rt item =
     (let name = fst item; data = snd item;
          rate_text = format_f 5 (rate data);
          bid_text = format_f 5 (bid data);
          ask_text = format_f 5 (ask data);
          updated = last_refreshed data
      in exn_bind (format_left20 rt updated) (\<lambda>updated_text.
           Inr (print (ljust 15 name @ ascii '' '' @ ljust 12 rate_text @ ascii '' ''
                       @ ljust 12 bid_text @ ascii '' '' @ ljust 12 ask_text @ ascii '' ''
                       @ updated_text))))"

fun table_rows :: "runtime \<Rightarrow> results \<Rightarrow> event list \<times> (pyexn + unit)" where
  "table_rows rt [] = ([], Inr ())"
| "table_rows rt (item # rest) =
     (case table_row rt item of
        Inl e \<Rightarrow> ([], Inl e)
      | Inr line \<Rightarrow> (case table_rows rt rest of (evs, res) \<Rightarrow> (line # evs, res)))"

text \<open>
  \<open>now\<close> is the text of \<^verbatim>\<open>datetime.now().strftime('%Y-%m-%d %H:%M:%S')\<close> at the moment of
  the call: the reading of the system clock, to the second.
\<close>

definition display_results ::
  "scanner \<Rightarrow> runtime \<Rightarrow> pystr \<Rightarrow> results \<Rightarrow> event list \<times> (pyexn + unit)"
where
  "display_results self rt now results =
     (if results = [] then ([print (10 # 10060 # ascii '' No results to display'')], Inr ())
      else
        (let heading =
               [print (10 # replicate 70 61),
                print (128202 # ascii '' FOREX SCANNER RESULTS - '' @ now),
                print (replicate 70 61 @ [10]),
                print (ljust 15 (ascii ''PAIR'') @ ascii '' '' @ ljust 12 (ascii ''RATE'')
                       @ ascii '' '' @ ljust 12 (ascii ''BID'') @ ascii '' ''
                       @ ljust 12 (ascii ''ASK'') @ ascii '' '' @ ljust 20 (ascii ''UPDATED'')),
                print (replicate 70 45)]
         in case table_rows rt results of
              (rows, Inl e) \<Rightarrow> (heading @ rows, Inl e)
            | (rows, Inr u) \<Rightarrow> (heading @ rows @ [print (replicate 70 61 @ [10])], Inr ())))"

text \<open>The text that a list of events puts on standard output, for the events that are
  plain text.\<close>

fun written :: "event list \<Rightarrow> pystr" where
  "written [] = []"
| "written (Write s # evs) = s @ written evs"
| "written (e # evs) = written evs"

subsection \<open>\<^verbatim>\<open>calculate_arbitrage\<close>\<close>

type_synonym finding = "pystr \<times> pystr \<times> pyfloat"

definition pairs_dict :: "results \<Rightarrow> (pystr \<times> pyfloat) list" where
  "pairs_dict results = map (\<lambda>item. (fst item, rate (snd item))) results"

text \<open>\<^verbatim>\<open>abs((rate1 * rate2) - 1.0)\<close> and the literal \<^verbatim>\<open>0.01\<close>, which denotes the float
  nearest to one hundredth.\<close>

definition spread_of :: "pyfloat \<Rightarrow> pyfloat \<Rightarrow> pyfloat" where
  "spread_of rate1 rate2 = float_abs (float_sub (float_mul rate1 rate2) (Finite False 1))"

definition threshold :: pyfloat where
  "threshold = float_of_rat (1 / 100)"

fun inner_loop :: "pystr \<Rightarrow> pyfloat \<Rightarrow> (pystr \<times> pyfloat) list \<Rightarrow> finding list \<Rightarrow> finding list"
where
  "inner_loop pair1 rate1 [] opps = opps"
| "inner_loop pair1 rate1 ((pair2, rate2) # rest) opps =
     inner_loop pair1 rate1 rest
       (if pair1 \<noteq> pair2
        then (let spread = spread_of rate1 rate2
              in if float_gt spread threshold then opps @ [(pair1, pair2, spread)] else opps)
        else opps)"

fun outer_loop ::
  "(pystr \<times> pyfloat) list \<Rightarrow> (pystr \<times> pyfloat) list \<Rightarrow> finding list \<Rightarrow> finding list"
where
  "outer_loop [] d opps = opps"
| "outer_loop ((pair1, rate1) # rest) d opps = outer_loop rest d (inner_loop pair1 rate1 d opps)"

text \<open>The list \<^verbatim>\<open>opportunities\<close> after the two loops, and the slice \<^verbatim>\<open>opportunities[:5]\<close>
  that is shown.\<close>

definition opportunities :: "results \<Rightarrow> finding list" where
  "opportunities results = (let d = pairs_dict results in outer_loop d d [])"

definition shown_opportunities :: "results \<Rightarrow> finding list" where
  "shown_opportunities results = take 5 (opportunities results)"

definition finding_line :: "finding \<Rightarrow> event" where
  "finding_line f =
     (case f of (p1, p2, spread) \<Rightarrow>
        print (ascii ''  '' @ [8226] @ ascii '' '' @ p1 @ ascii '' '' @ [215] @ ascii '' '' @ p2
               @ ascii '' - Spread: '' @ format_f 4 spread))"

definition calculate_arbitrage :: "scanner \<Rightarrow> results \<Rightarrow> event list" where
  "calculate_arbitrage self results =
     [print (128161 # ascii '' Arbitrage Analysis:''), print (replicate 70 45)]
     @ (if opportunities results \<noteq> []
        then print (9888 # 65039 # ascii ''  Potential opportunities detected (further analysis required):'')
             # map finding_line (shown_opportunities results)
        else [print (10003 # ascii '' No significant arbitrage opportunities detected'')])
     @ [print []]"

subsection \<open>Sequences of calls on one scanner\<close>

text \<open>
  A method call with its arguments; \<^verbatim>\<open>display_results\<close> comes with the clock reading at
  the call. No method of the class assigns to an attribute of \<^verbatim>\<open>self\<close>, so the scanner
  after a call is the scanner before it. In a sequence of calls the network answers the
  requests in the order in which they are sent.
\<close>

datatype call =
    Get_exchange_rate pystr pystr
  | Scan_pairs "(pystr \<times> pystr) list" pyfloat
  | Display_results pystr results
  | Calculate_arbitrage results

datatype outcome =
    Returned_rate "rate_record option"
  | Returned_results results
  | Returned_nothing
  | Raised pyexn

fun is_request :: "event \<Rightarrow> bool" where
  "is_request (Http_get r) = True"
| "is_request e = False"

definition run_call ::
  "runtime \<Rightarrow> network \<Rightarrow> scanner \<Rightarrow> call \<Rightarrow> scanner \<times> event list \<times> outcome"
where
  "run_call rt net self c =
     (case c of
        Get_exchange_rate f t \<Rightarrow>
          (case get_exchange_rate self rt (net 0) f t of
             (evs, Inl e) \<Rightarrow> (self, evs, Raised e)
           | (evs, Inr r) \<Rightarrow> (self, evs, Returned_rate r))
      | Scan_pairs pairs delay \<Rightarrow>
          (case scan_pairs self rt net pairs delay of
             (evs, Inl e) \<Rightarrow> (self, evs, Raised e)
           | (evs, Inr m) \<Rightarrow> (self, evs, Returned_results m))
      | Display_results now results \<Rightarrow>
          (case display_results self rt now results of
             (evs, Inl e) \<Rightarrow> (self, evs, Raised e)
           | (evs, Inr u) \<Rightarrow> (self, evs, Returned_nothing))
      | Calculate_arbitrage results \<Rightarrow>
          (self, calculate_arbitrage self results, Returned_nothing))"

fun run_calls ::
  "runtime \<Rightarrow> network \<Rightarrow> scanner \<Rightarrow> call list \<Rightarrow> scanner \<times> (event list \<times> outcome) list"
where
  "run_calls rt net self [] = (self, [])"
| "run_calls rt net self (c # cs) =
     (case run_call rt net self c of
        (self', evs, out) \<Rightarrow>
          (case run_calls rt (\<lambda>k. net (k + length (filter is_request evs))) self' cs of
             (self'', rest) \<Rightarrow> (self'', (evs, out) # rest)))"

text \<open>The requests and the pauses among the events of a method, in order.\<close>

fun is_io :: "event \<Rightarrow> bool" where
  "is_io (Http_get r) = True"
| "is_io (Sleep d) = True"
| "is_io (Write s) = False"
| "is_io (Write_error v) = False"
| "is_io (Write_api_limit v) = False"
| "is_io (Write_network_error e) = False"
| "is_io (Write_parsing_error e) = False"

definition io_of :: "event list \<Rightarrow> event list" where
  "io_of evs = filter is_io evs"

text \<open>
  Notions for stating what a scan returns. \<open>fetched\<close> is what the call for the pair at
  position \<open>i\<close> (counted from 0) returns or raises, given how the network answers the
  request after \<open>i\<close> earlier ones, and \<open>key_at\<close> is the key of that pair.
\<close>

definition fetched ::
  "scanner \<Rightarrow> runtime \<Rightarrow> network \<Rightarrow> (pystr \<times> pystr) list \<Rightarrow> nat \<Rightarrow> pyexn + rate_record option"
where
  "fetched self rt net pairs i =
     snd (get_exchange_rate self rt (net i) (fst (pairs ! i)) (snd (pairs ! i)))"

definition key_at :: "(pystr \<times> pystr) list \<Rightarrow> nat \<Rightarrow> pystr" where
  "key_at pairs i = pair_name (fst (pairs ! i)) (snd (pairs ! i))"

text \<open>The successful fetches of a scan in order, each with its key; the entry that the
  fetch at position \<open>i\<close> contributes; and whether that fetch returned a record.\<close>

fun successes ::
  "scanner \<Rightarrow> runtime \<Rightarrow> network \<Rightarrow> (pystr \<times> pystr) list \<Rightarrow> (pystr \<times> rate_record) list"
where
  "successes self rt net [] = []"
| "successes self rt net (pair # rest) =
     (case snd (get_exchange_rate self rt (net 0) (fst pair) (snd pair)) of
        Inr (Some r) \<Rightarrow> [(pair_name (fst pair) (snd pair), r)]
      | _ \<Rightarrow> [])
     @ successes self rt (\<lambda>k. net (Suc k)) rest"

definition success_at ::
  "scanner \<Rightarrow> runtime \<Rightarrow> network \<Rightarrow> (pystr \<times> pystr) list \<Rightarrow> nat \<Rightarrow> (pystr \<times> rate_record) list"
where
  "success_at self rt net pairs i =
     (case fetched self rt net pairs i of Inr (Some r) \<Rightarrow> [(key_at pairs i, r)] | _ \<Rightarrow> [])"

definition succeeded :: "scanner \<Rightarrow> runtime \<Rightarrow> network \<Rightarrow> (pystr \<times> pystr) list \<Rightarrow> nat \<Rightarrow> bool"
where
  "succeeded self rt net pairs i =
     (case fetched self rt net pairs i of Inr (Some r) \<Rightarrow> True | _ \<Rightarrow> False)"

text \<open>
  The findings as the design describes them: every ordered pair of entries with different
  keys, the first entry in the outer position, kept when its spread exceeds the threshold.
\<close>

definition discovery_order :: "results \<Rightarrow> finding list" where
  "discovery_order results =
     [(pair1, pair2, spread_of rate1 rate2).
        (pair1, rate1) \<leftarrow> pairs_dict results, (pair2, rate2) \<leftarrow> pairs_dict results,
        pair1 \<noteq> pair2, float_gt (spread_of rate1 rate2) threshold]"

section \<open>Example data\<close>

definition example_quote :: "pystr \<Rightarrow> pystr \<Rightarrow> pyfloat \<Rightarrow> rate_record" where
  "example_quote f t x =
     \<lparr>from_code = JStr f, from_name = JStr f, to_code = JStr t, to_name = JStr t, rate = x,
      last_refreshed = JStr (ascii ''2024-01-01 00:00:00''), timezone = JStr (ascii ''UTC''),
      bid = x, ask = x\<rparr>"

definition three_halves :: results where
  "three_halves =
     [(ascii ''USD/EUR'', example_quote (ascii ''USD'') (ascii ''EUR'') (Finite False (1 / 2))),
      (ascii ''EUR/USD'', example_quote (ascii ''EUR'') (ascii ''USD'') (Finite False (1 / 2))),
      (ascii ''USD/GBP'', example_quote (ascii ''USD'') (ascii ''GBP'') (Finite False (1 / 2)))]"

text \<open>
  An interpreter for the examples. Its \<open>float_of_str\<close> reads an unsigned plain decimal
  (digits, optionally a point and more digits) and rejects every other string; the
  examples use \<^verbatim>\<open>float\<close> on such decimals only. Its \<open>float_repr\<close> is exact on the
  halves, and no example formats a float that way. Its \<^verbatim>\<open>time.sleep\<close> rejects a negative
  or undefined length and accepts every other.
\<close>

definition all_digits :: "pystr \<Rightarrow> bool" where
  "all_digits s = (s \<noteq> [] \<and> list_all (\<lambda>c. 48 \<le> c \<and> c \<le> 57) s)"

definition digits_value :: "pystr \<Rightarrow> int" where
  "digits_value s = foldl (\<lambda>n c. 10 * n + (int c - 48)) 0 s"

definition decimal_float :: "pystr \<Rightarrow> pyfloat option" where
  "decimal_float s =
     (let whole = takeWhile (\<lambda>c. c \<noteq> 46) s; rest = dropWhile (\<lambda>c. c \<noteq> 46) s
      in if rest = [] then
           (if all_digits whole then Some (float_of_rat (of_int (digits_value whole))) else None)
         else if all_digits whole \<and> all_digits (tl rest) then
           Some (float_of_rat (of_int (digits_value (whole @ tl rest)) / 10 ^ length (tl rest)))
         else None)"

definition example_runtime :: runtime where
  "example_runtime =
     \<lparr>upper_table = (\<lambda>c. [c]),
      float_of_str = decimal_float,
      float_repr = format_f 1,
      sleep_error = (\<lambda>d. case d of
                           NaN \<Rightarrow> Some ValueError
                         | Infinity s \<Rightarrow> Some (if s then ValueError else OverflowError)
                         | Finite s m \<Rightarrow> if s \<and> m \<noteq> 0 then Some ValueError else None)\<rparr>"

text \<open>A quote object and a response body that holds it; \<open>x\<close> is the value under the
  exchange rate.\<close>

definition quote_object :: "pystr \<Rightarrow> pystr \<Rightarrow> json \<Rightarrow> json" where
  "quote_object f t x =
     JObj [(ascii ''1. From_Currency Code'', JStr f),
           (ascii ''2. From_Currency Name'', JStr (ascii ''Base currency'')),
           (ascii ''3. To_Currency Code'', JStr t),
           (ascii ''4. To_Currency Name'', JStr (ascii ''Quote currency'')),
           (ascii ''5. Exchange Rate'', x),
           (ascii ''6. Last Refreshed'', JStr (ascii ''2024-01-01 00:00:00'')),
           (ascii ''7. Time Zone'', JStr (ascii ''UTC'')),
           (ascii ''8. Bid Price'', JStr (ascii ''0.25'')),
           (ascii ''9. Ask Price'', JStr (ascii ''0.75''))]"

definition quote_body :: "pystr \<Rightarrow> pystr \<Rightarrow> json \<Rightarrow> json" where
  "quote_body f t x = JObj [(key_quote, quote_object f t x)]"

definition ok_response :: "json \<Rightarrow> http_result" where
  "ok_response data = Inr \<lparr>status_code = 200, body = Inr data\<rparr>"

definition example_scanner :: scanner where
  "example_scanner = init (ascii ''demo'')"

text \<open>A server that answers every request with a quote whose codes are in lower case, and
  the record that the scanner makes of it.\<close>

definition lowercase_reply :: "request \<Rightarrow> http_result" where
  "lowercase_reply req = ok_response (quote_body (ascii ''usd'') (ascii ''eur'') (JStr (ascii ''0.5'')))"

definition lowercase_record :: rate_record where
  "lowercase_record =
     \<lparr>from_code = JStr (ascii ''usd''), from_name = JStr (ascii ''Base currency''),
      to_code = JStr (ascii ''eur''), to_name = JStr (ascii ''Quote currency''),
      rate = Finite False (1 / 2),
      last_refreshed = JStr (ascii ''2024-01-01 00:00:00''), timezone = JStr (ascii ''UTC''),
      bid = Finite False (1 / 4), ask = Finite False (3 / 4)\<rparr>"

text \<open>A response body that holds an error message, a note and a quote object at once.\<close>

definition error_note_quote_body :: "(pystr \<times> json) list" where
  "error_note_quote_body =
     [(key_quote, quote_object (ascii ''USD'') (ascii ''EUR'') (JStr (ascii ''0.5''))),
      (key_note, JStr (ascii ''Thank you for using Alpha Vantage!'')),
      (key_error_message, JStr (ascii ''Invalid API call.''))]"

definition error_note_quote_reply :: "request \<Rightarrow> http_result" where
  "error_note_quote_reply req = ok_response (JObj error_note_quote_body)"

text \<open>
  Servers for the examples of a scan: \<open>echo_quote x\<close> answers a request with a quote for
  the two codes of the request at the rate text \<open>x\<close>, and \<open>echoed_record\<close> is the record
  that the scanner makes of such an answer; \<open>first_fails\<close> answers the first request of
  a run with an error message and echoes at 0.5 afterwards; \<open>rising\<close> echoes at 0.25,
  then 0.5, then 0.75; \<open>null_rate\<close> echoes with \<^verbatim>\<open>null\<close> in place of the rate.
\<close>

definition echo_quote :: "pystr \<Rightarrow> request \<Rightarrow> http_result" where
  "echo_quote x req =
     ok_response (quote_body (param_from_currency req) (param_to_currency req) (JStr x))"

definition echoed_record :: "pystr \<Rightarrow> pystr \<Rightarrow> pyfloat \<Rightarrow> rate_record" where
  "echoed_record f t x =
     \<lparr>from_code = JStr f, from_name = JStr (ascii ''Base currency''),
      to_code = JStr t, to_name = JStr (ascii ''Quote currency''),
      rate = x,
      last_refreshed = JStr (ascii ''2024-01-01 00:00:00''), timezone = JStr (ascii ''UTC''),
      bid = Finite False (1 / 4), ask = Finite False (3 / 4)\<rparr>"

definition error_body :: json where
  "error_body = JObj [(key_error_message, JStr (ascii ''Invalid API call.''))]"

definition first_fails :: network where
  "first_fails k req = (if k = 0 then ok_response error_body else echo_quote (ascii ''0.5'') req)"

definition rising :: network where
  "rising k req =
     echo_quote (if k = 0 then ascii ''0.25'' else if k = 1 then ascii ''0.5'' else ascii ''0.75'') req"

definition null_rate :: network where
  "null_rate k req =
     ok_response (quote_body (param_from_currency req) (param_to_currency req) JNull)"

text \<open>The delay 12.0 of \<^verbatim>\<open>main\<close>, and three lists of pairs.\<close>

definition twelve :: pyfloat where
  "twelve = Finite False 12"

definition major_pairs :: "(pystr \<times> pystr) list" where
  "major_pairs = [(ascii ''USD'', ascii ''EUR''), (ascii ''USD'', ascii ''GBP'')]"

definition slash_pairs :: "(pystr \<times> pystr) list" where
  "slash_pairs = [(ascii ''USD/EUR'', ascii ''GBP''), (ascii ''USD'', ascii ''EUR/GBP'')]"

definition repeated_pairs :: "(pystr \<times> pystr) list" where
  "repeated_pairs =
     [(ascii ''USD'', ascii ''EUR/GBP''), (ascii ''USD'', ascii ''EUR/GBP''),
      (ascii ''USD/EUR'', ascii ''GBP'')]"

text \<open>Two readings of the clock, one second apart.\<close>

definition midnight :: pystr where
  "midnight = ascii ''2024-01-01 00:00:00''"

definition one_second_later :: pystr where
  "one_second_later = ascii ''2024-01-01 00:00:01''"

section \<open>Properties of \<^verbatim>\<open>get_exchange_rate\<close>\<close>

lemma ascii_eq_iff [simp]: "ascii s = ascii t \<longleftrightarrow> s = t"
  by (simp add: ascii_def inj_map_eq_map inj_of_char)

lemma length_ascii [simp]: "length (ascii s) = length s"
  by (simp add: ascii_def)

lemma exn_bind_Inr_iff: "exn_bind m f = Inr y \<longleftrightarrow> (\<exists>x. m = Inr x \<and> f x = Inr y)"
  by (cases m) (simp_all add: exn_bind_def)

lemma exn_bind_Inl_iff: "exn_bind m f = Inl e \<longleftrightarrow> m = Inl e \<or> (\<exists>x. m = Inr x \<and> f x = Inl e)"
  by (cases m) (simp_all add: exn_bind_def)

lemma build_record_Inr:
  "build_record rt q = Inr r \<Longrightarrow>
     py_getitem q (ascii ''1. From_Currency Code'') = Inr (from_code r)
     \<and> py_getitem q (ascii ''3. To_Currency Code'') = Inr (to_code r)
     \<and> (\<exists>v. py_getitem q (ascii ''5. Exchange Rate'') = Inr v \<and> py_float rt v = Inr (rate r))
     \<and> (\<exists>v. py_getitem q (ascii ''8. Bid Price'') = Inr v \<and> py_float rt v = Inr (bid r))
     \<and> (\<exists>v. py_getitem q (ascii ''9. Ask Price'') = Inr v \<and> py_float rt v = Inr (ask r))"
  by (auto simp: build_record_def exn_bind_Inr_iff)

lemma try_block_Some:
  assumes "try_block rt got f t = Inr (out, Some r)"
  shows "out = [] \<and> (\<exists>resp data q. got = Inr resp \<and> body resp = Inr data
           \<and> py_getitem data key_quote = Inr q \<and> build_record rt q = Inr r)"
  using assms
  by (auto simp: try_block_def exn_bind_Inr_iff split: if_splits)

lemma get_exchange_rate_Some:
  assumes "get_exchange_rate self rt http f t = (evs, Inr (Some r))"
  shows "evs = [Http_get (request_for self rt f t)]
     \<and> (\<exists>out. try_block rt (http (request_for self rt f t)) f t = Inr (out, Some r))"
proof (cases "try_block rt (http (request_for self rt f t)) f t")
  case (Inl e)
  with assms show ?thesis
    by (simp add: get_exchange_rate_def Let_def split: if_splits)
next
  case (Inr p)
  obtain out r' where "p = (out, r')" by (cases p)
  with Inr assms try_block_Some [of rt "http (request_for self rt f t)" f t out r] show ?thesis
    by (auto simp add: get_exchange_rate_def Let_def)
qed

text \<open>
  Claim C1, as amended. For every call of \<^verbatim>\<open>get_exchange_rate\<close> that returns a record, the
  request carried the two codes in upper case, the response had a decoded body with a
  quote object, the fields \<^verbatim>\<open>rate\<close>, \<^verbatim>\<open>bid\<close> and \<^verbatim>\<open>ask\<close> of the record are
  \<^verbatim>\<open>float\<close> of the values under the rate, bid and ask keys of that object, and the two
  codes of the record are the values under its code keys, unchanged.
\<close>

theorem fetch_success_fields:
  assumes "get_exchange_rate self rt http f t = (evs, Inr (Some r))"
  shows "\<exists>resp data q v_rate v_bid v_ask.
      evs = [Http_get (request_for self rt f t)]
    \<and> param_from_currency (request_for self rt f t) = str_upper (upper_table rt) f
    \<and> param_to_currency (request_for self rt f t) = str_upper (upper_table rt) t
    \<and> http (request_for self rt f t) = Inr resp \<and> body resp = Inr data
    \<and> py_getitem data key_quote = Inr q
    \<and> py_getitem q (ascii ''5. Exchange Rate'') = Inr v_rate \<and> py_float rt v_rate = Inr (rate r)
    \<and> py_getitem q (ascii ''8. Bid Price'') = Inr v_bid \<and> py_float rt v_bid = Inr (bid r)
    \<and> py_getitem q (ascii ''9. Ask Price'') = Inr v_ask \<and> py_float rt v_ask = Inr (ask r)
    \<and> py_getitem q (ascii ''1. From_Currency Code'') = Inr (from_code r)
    \<and> py_getitem q (ascii ''3. To_Currency Code'') = Inr (to_code r)"
proof -
  from get_exchange_rate_Some [OF assms] obtain out where
    evs: "evs = [Http_get (request_for self rt f t)]" and
    tb: "try_block rt (http (request_for self rt f t)) f t = Inr (out, Some r)"
    by blast
  from try_block_Some [OF tb] obtain resp data q where
    got: "http (request_for self rt f t) = Inr resp" "body resp = Inr data"
      "py_getitem data key_quote = Inr q" and br: "build_record rt q = Inr r"
    by blast
  from build_record_Inr [OF br] evs got show ?thesis
    by (auto simp: request_for_def)
qed


lemma decimal_examples:
  "decimal_float (ascii ''0.5'') = Some (Finite False (1 / 2))"
  "decimal_float (ascii ''0.25'') = Some (Finite False (1 / 4))"
  "decimal_float (ascii ''0.75'') = Some (Finite False (3 / 4))"
  by code_simp+

lemma upper_usd: "str_upper (upper_table example_runtime) (ascii ''usd'') = ascii ''USD''"
  by (simp add: str_upper_def upper_cp_def ascii_def example_runtime_def)

lemma upper_eur: "str_upper (upper_table example_runtime) (ascii ''eur'') = ascii ''EUR''"
  by (simp add: str_upper_def upper_cp_def ascii_def example_runtime_def)

lemma lowercase_fetch:
  "get_exchange_rate example_scanner example_runtime lowercase_reply (ascii ''usd'') (ascii ''eur'')
   = ([Http_get (request_for example_scanner example_runtime (ascii ''usd'') (ascii ''eur''))],
      Inr (Some lowercase_record))"
  by (simp add: get_exchange_rate_def try_block_def build_record_def exn_bind_def
      lowercase_reply_def ok_response_def quote_body_def quote_object_def raise_for_status_def
      key_error_message_def key_note_def key_quote_def example_runtime_def decimal_examples
      lowercase_record_def)

text \<open>
  Claim C5. For every response whose decoded body is an object with the key
  \<^verbatim>\<open>Error Message\<close>, \<^verbatim>\<open>get_exchange_rate\<close> returns \<^verbatim>\<open>None\<close>; when the status code
  does not make \<^verbatim>\<open>raise_for_status\<close> raise, the diagnostic written is the error line with
  the message, whatever else the body holds, a note or a quote object included.
\<close>

theorem error_message_is_failure:
  assumes "http (request_for self rt f t) = Inr resp"
    and "body resp = Inr (JObj kvs)"
    and "key_error_message \<in> fst ` set kvs"
  shows "snd (get_exchange_rate self rt http f t) = Inr None
    \<and> (\<not> (400 \<le> status_code resp \<and> status_code resp < 600) \<longrightarrow>
         (\<exists>msg. map_of kvs key_error_message = Some msg
            \<and> fst (get_exchange_rate self rt http f t)
                = [Http_get (request_for self rt f t), Write_error msg]))"
proof -
  from assms(3) obtain msg where msg: "map_of kvs key_error_message = Some msg"
    by (metis domD dom_map_of_conv_image_fst)
  show ?thesis
  proof (cases "400 \<le> status_code resp \<and> status_code resp < 600")
    case True
    with assms(1) have "try_block rt (http (request_for self rt f t)) f t = Inl RequestException"
      by (simp add: try_block_def exn_bind_def raise_for_status_def)
    with True show ?thesis
      by (simp add: get_exchange_rate_def Let_def)
  next
    case False
    with assms msg have
      "try_block rt (http (request_for self rt f t)) f t = Inr ([Write_error msg], None)"
      by (simp add: try_block_def exn_bind_def raise_for_status_def)
    with False msg show ?thesis
      by (simp add: get_exchange_rate_def Let_def)
  qed
qed

theorem error_message_is_failure_witness:
  "get_exchange_rate example_scanner example_runtime error_note_quote_reply (ascii ''USD'') (ascii ''EUR'')
   = ([Http_get (request_for example_scanner example_runtime (ascii ''USD'') (ascii ''EUR'')),
       Write_error (JStr (ascii ''Invalid API call.''))], Inr None)
   \<and> key_note \<in> fst ` set error_note_quote_body
   \<and> key_quote \<in> fst ` set error_note_quote_body"
proof -
  let ?req = "request_for example_scanner example_runtime (ascii ''USD'') (ascii ''EUR'')"
  have reply: "error_note_quote_reply ?req = Inr \<lparr>status_code = 200, body = Inr (JObj error_note_quote_body)\<rparr>"
    by (simp add: error_note_quote_reply_def ok_response_def)
  have keys: "key_error_message \<in> fst ` set error_note_quote_body"
    "key_note \<in> fst ` set error_note_quote_body" "key_quote \<in> fst ` set error_note_quote_body"
    by (simp_all add: error_note_quote_body_def)
  have msg: "map_of error_note_quote_body key_error_message = Some (JStr (ascii ''Invalid API call.''))"
    by (simp add: error_note_quote_body_def key_error_message_def key_note_def key_quote_def)
  from error_message_is_failure
         [of error_note_quote_reply example_scanner example_runtime "ascii ''USD''" "ascii ''EUR''",
          OF reply _ keys(1)] msg keys
  show ?thesis
    by (simp add: prod_eq_iff)
qed


theorem fetch_success_fields_witness:
  "get_exchange_rate example_scanner example_runtime lowercase_reply (ascii ''usd'') (ascii ''eur'')
     = ([Http_get (request_for example_scanner example_runtime (ascii ''usd'') (ascii ''eur''))],
        Inr (Some lowercase_record))
   \<and> (\<exists>v. py_getitem (quote_object (ascii ''usd'') (ascii ''eur'') (JStr (ascii ''0.5'')))
               (ascii ''5. Exchange Rate'') = Inr v
            \<and> py_float example_runtime v = Inr (rate lowercase_record))
   \<and> py_getitem (quote_object (ascii ''usd'') (ascii ''eur'') (JStr (ascii ''0.5'')))
               (ascii ''1. From_Currency Code'') = Inr (from_code lowercase_record)"
proof -
  let ?req = "request_for example_scanner example_runtime (ascii ''usd'') (ascii ''eur'')"
  let ?q = "quote_object (ascii ''usd'') (ascii ''eur'') (JStr (ascii ''0.5''))"
  from fetch_success_fields [OF lowercase_fetch] obtain resp data q v where
    resp: "lowercase_reply ?req = Inr resp" "body resp = Inr data"
    and q: "py_getitem data key_quote = Inr q"
    and v: "py_getitem q (ascii ''5. Exchange Rate'') = Inr v"
      "py_float example_runtime v = Inr (rate lowercase_record)"
    and c: "py_getitem q (ascii ''1. From_Currency Code'') = Inr (from_code lowercase_record)"
    by blast
  from resp q have "q = ?q"
    by (auto simp: lowercase_reply_def ok_response_def quote_body_def)
  with v c lowercase_fetch show ?thesis
    by blast
qed

text \<open>
  Claim C1 as stated fails: a server that answers the call for \<^verbatim>\<open>usd\<close> and \<^verbatim>\<open>eur\<close>
  with the codes in lower case yields a record with the codes in lower case.
\<close>

theorem fetch_codes_not_uppercased:
  "get_exchange_rate example_scanner example_runtime lowercase_reply (ascii ''usd'') (ascii ''eur'')
     = ([Http_get (request_for example_scanner example_runtime (ascii ''usd'') (ascii ''eur''))],
        Inr (Some lowercase_record))
   \<and> from_code lowercase_record = JStr (ascii ''usd'')
   \<and> to_code lowercase_record = JStr (ascii ''eur'')
   \<and> str_upper (upper_table example_runtime) (ascii ''usd'') = ascii ''USD''
   \<and> str_upper (upper_table example_runtime) (ascii ''eur'') = ascii ''EUR''
   \<and> ascii ''usd'' \<noteq> ascii ''USD'' \<and> ascii ''eur'' \<noteq> ascii ''EUR''"
  by (simp add: lowercase_fetch upper_usd upper_eur lowercase_record_def)

section \<open>Properties of \<^verbatim>\<open>scan_pairs\<close>\<close>

lemma loop_body_Inr:
  assumes "loop_body self rt http delay total_pairs idx pair acc = (evs, Inr acc')"
  shows "\<exists>x. snd (get_exchange_rate self rt http (fst pair) (snd pair)) = Inr x
     \<and> acc' = (case x of Some r \<Rightarrow> AList.update (pair_name (fst pair) (snd pair)) r acc
                        | None \<Rightarrow> acc)"
  using assms
  by (auto simp: loop_body_def Let_def split: prod.splits sum.splits option.splits if_splits)

lemma scan_loop_results:
  "scan_loop self rt net delay total_pairs idx pairs acc = (evs, Inr m) \<Longrightarrow>
     m = fold (\<lambda>(k, r). AList.update k r) (successes self rt net pairs) acc"
proof (induction pairs arbitrary: net idx acc evs)
  case Nil
  then show ?case by simp
next
  case (Cons pair rest)
  from Cons.prems obtain evs1 acc1 evs2 where
    body: "loop_body self rt (net 0) delay total_pairs idx pair acc = (evs1, Inr acc1)" and
    rest: "scan_loop self rt (\<lambda>k. net (Suc k)) delay total_pairs (Suc idx) rest acc1 = (evs2, Inr m)"
    by (auto split: prod.splits sum.splits)
  from loop_body_Inr [OF body] obtain x where
    x: "snd (get_exchange_rate self rt (net 0) (fst pair) (snd pair)) = Inr x"
    "acc1 = (case x of Some r \<Rightarrow> AList.update (pair_name (fst pair) (snd pair)) r acc | None \<Rightarrow> acc)"
    by blast
  from Cons.IH [OF rest] x show ?case
    by (cases x) simp_all
qed

lemma scan_loop_all_return:
  "scan_loop self rt net delay total_pairs idx pairs acc = (evs, Inr m) \<Longrightarrow> i < length pairs \<Longrightarrow>
     \<exists>x. fetched self rt net pairs i = Inr x"
proof (induction pairs arbitrary: net idx acc evs i)
  case Nil
  then show ?case by simp
next
  case (Cons pair rest)
  from Cons.prems(1) obtain evs1 acc1 evs2 where
    body: "loop_body self rt (net 0) delay total_pairs idx pair acc = (evs1, Inr acc1)" and
    rest: "scan_loop self rt (\<lambda>k. net (Suc k)) delay total_pairs (Suc idx) rest acc1 = (evs2, Inr m)"
    by (auto split: prod.splits sum.splits)
  show ?case
  proof (cases i)
    case 0
    with loop_body_Inr [OF body] show ?thesis
      by (auto simp: fetched_def)
  next
    case (Suc j)
    with Cons.prems(2) have "j < length rest" by simp
    from Cons.IH [OF rest this] Suc show ?thesis
      by (simp add: fetched_def)
  qed
qed

lemma success_at_Suc:
  "success_at self rt net (pair # rest) (Suc i) = success_at self rt (\<lambda>k. net (Suc k)) rest i"
  by (simp add: success_at_def fetched_def key_at_def split: sum.splits option.splits)

lemma successes_index:
  "successes self rt net pairs = concat (map (success_at self rt net pairs) [0..<length pairs])"
proof (induction pairs arbitrary: net)
  case Nil
  then show ?case by simp
next
  case (Cons pair rest)
  have "[0..<length (pair # rest)] = 0 # map Suc [0..<length rest]"
    by (simp add: upt_conv_Cons map_Suc_upt del: upt_Suc)
  moreover have "successes self rt net (pair # rest)
      = success_at self rt net (pair # rest) 0 @ successes self rt (\<lambda>k. net (Suc k)) rest"
    by (simp add: success_at_def fetched_def key_at_def split: sum.splits option.splits)
  ultimately show ?case
    by (simp add: Cons.IH success_at_Suc comp_def del: upt_Suc successes.simps)
qed

lemma success_at_cases:
  "success_at self rt net pairs i =
     (if succeeded self rt net pairs i
      then [(key_at pairs i, the (projr (fetched self rt net pairs i)))] else [])"
  by (simp add: success_at_def succeeded_def split: sum.splits option.splits)

lemma succeeded_iff:
  "succeeded self rt net pairs i \<longleftrightarrow> (\<exists>r. fetched self rt net pairs i = Inr (Some r))"
  by (simp add: succeeded_def split: sum.splits option.splits)

lemma length_successes:
  "length (successes self rt net pairs)
     = length (filter (succeeded self rt net pairs) [0..<length pairs])"
proof -
  have "length (concat (map (success_at self rt net pairs) idx))
          = length (filter (succeeded self rt net pairs) idx)" for idx
    by (induction idx) (simp_all add: success_at_cases)
  then show ?thesis
    by (simp add: successes_index)
qed

lemma set_success_at:
  "(k, r) \<in> set (success_at self rt net pairs i) \<longleftrightarrow>
     key_at pairs i = k \<and> fetched self rt net pairs i = Inr (Some r)"
  by (auto simp: success_at_def split: sum.splits option.splits)

lemma set_successes:
  "(k, r) \<in> set (successes self rt net pairs) \<longleftrightarrow>
     (\<exists>i<length pairs. key_at pairs i = k \<and> fetched self rt net pairs i = Inr (Some r))"
proof -
  have "(k, r) \<in> set (successes self rt net pairs) \<longleftrightarrow>
          (\<exists>i\<in>set [0..<length pairs]. (k, r) \<in> set (success_at self rt net pairs i))"
    by (simp add: successes_index)
  also have "\<dots> \<longleftrightarrow>
      (\<exists>i<length pairs. key_at pairs i = k \<and> fetched self rt net pairs i = Inr (Some r))"
    by (simp add: set_success_at Bex_def)
  finally show ?thesis .
qed

lemma map_of_fold_update:
  "map_of (fold (\<lambda>(k, r). AList.update k r) xs acc) = map_of acc ++ map_of (rev xs)"
proof (induction xs arbitrary: acc)
  case Nil
  then show ?case by simp
next
  case (Cons x xs)
  obtain k r where x: "x = (k, r)" by (cases x)
  have "map_of (AList.update k r acc) ++ map_of (rev xs)
          = map_of acc ++ (map_of (rev xs @ [(k, r)]))"
    by (rule ext) (simp add: update_conv' map_add_def split: option.splits)
  with x show ?case
    by (simp add: Cons.IH)
qed

lemma distinct_fold_update:
  "distinct (map fst acc) \<Longrightarrow> distinct (map fst (fold (\<lambda>(k, r). AList.update k r) xs acc))"
  by (induction xs arbitrary: acc) (auto simp: distinct_update)

lemma keys_fold_update:
  "fst ` set (fold (\<lambda>(k, r). AList.update k r) xs acc) = fst ` set acc \<union> fst ` set xs"
proof (induction xs arbitrary: acc)
  case Nil
  then show ?case by simp
next
  case (Cons x xs)
  obtain k r where x: "x = (k, r)" by (cases x)
  have "fst ` set (fold (\<lambda>(k, r). AList.update k r) xs (AList.update k r acc))
          = ({k} \<union> fst ` set acc) \<union> fst ` set xs"
    by (simp only: Cons.IH dom_update)
  with x show ?case
    by auto
qed

lemma scan_pairs_results:
  assumes "scan_pairs self rt net pairs delay = (evs, Inr m)"
  shows "m = fold (\<lambda>(k, r). AList.update k r) (successes self rt net pairs) []"
proof -
  from assms obtain evs' where
    "scan_loop self rt net delay (length pairs) 1 pairs [] = (evs', Inr m)"
    by (auto simp: scan_pairs_def Let_def split: prod.splits)
  then show ?thesis
    by (rule scan_loop_results)
qed

lemma scan_pairs_distinct:
  assumes "scan_pairs self rt net pairs delay = (evs, Inr m)"
  shows "distinct (map fst m)"
  unfolding scan_pairs_results [OF assms] by (rule distinct_fold_update) simp

lemma scan_pairs_keys:
  assumes "scan_pairs self rt net pairs delay = (evs, Inr m)"
  shows "fst ` set m = key_at pairs ` {i. i < length pairs \<and> succeeded self rt net pairs i}"
proof -
  have "fst ` set m = fst ` set (successes self rt net pairs)"
    unfolding scan_pairs_results [OF assms] by (simp add: keys_fold_update)
  also have "\<dots> = key_at pairs ` {i. i < length pairs \<and> succeeded self rt net pairs i}"
  proof (rule set_eqI)
    fix k
    have "k \<in> fst ` set (successes self rt net pairs)
            \<longleftrightarrow> (\<exists>r. (k, r) \<in> set (successes self rt net pairs))"
      by force
    also have "\<dots> \<longleftrightarrow> (\<exists>i<length pairs. key_at pairs i = k \<and> succeeded self rt net pairs i)"
      unfolding set_successes succeeded_iff by blast
    also have "\<dots> \<longleftrightarrow>
        k \<in> key_at pairs ` {i. i < length pairs \<and> succeeded self rt net pairs i}"
      by blast
    finally show "k \<in> fst ` set (successes self rt net pairs) \<longleftrightarrow>
        k \<in> key_at pairs ` {i. i < length pairs \<and> succeeded self rt net pairs i}" .
  qed
  finally show ?thesis .
qed

lemma scan_pairs_lookup:
  assumes "scan_pairs self rt net pairs delay = (evs, Inr m)"
  shows "map_of m = map_of (rev (successes self rt net pairs))"
  unfolding scan_pairs_results [OF assms] by (simp add: map_of_fold_update)

lemma last_success_lookup:
  assumes j: "j < length pairs" and r: "fetched self rt net pairs j = Inr (Some r)"
    and later: "\<forall>j'<length pairs. j < j' \<and> key_at pairs j' = key_at pairs j
                  \<longrightarrow> \<not> succeeded self rt net pairs j'"
  shows "map_of (rev (successes self rt net pairs)) (key_at pairs j) = Some r"
proof -
  let ?sa = "success_at self rt net pairs"
  let ?k = "key_at pairs j"
  define A where "A = concat (map ?sa [0..<j])"
  define B where "B = concat (map ?sa [Suc j..<length pairs])"
  from j have "[0..<length pairs] = [0..<j] @ j # [Suc j..<length pairs]"
    by (metis le_add_diff_inverse less_imp_le_nat upt_add_eq_append upt_conv_Cons zero_le)
  moreover from r have "?sa j = [(?k, r)]"
    by (simp add: success_at_def)
  ultimately have split: "successes self rt net pairs = A @ (?k, r) # B"
    by (simp add: successes_index A_def B_def)
  have "?k \<notin> fst ` set B"
  proof
    assume "?k \<in> fst ` set B"
    then obtain r' j' where "j' \<in> set [Suc j..<length pairs]" "(?k, r') \<in> set (?sa j')"
      by (auto simp: B_def)
    with later show False
      by (auto simp: set_success_at succeeded_iff)
  qed
  then have "map_of (rev B) ?k = None"
    by (simp add: map_of_eq_None_iff)
  then show ?thesis
    by (simp add: split map_add_def)
qed

lemma scan_pairs_length:
  assumes "scan_pairs self rt net pairs delay = (evs, Inr m)"
  shows "length m = card (key_at pairs ` {i. i < length pairs \<and> succeeded self rt net pairs i})"
proof -
  have "length m = length (map fst m)"
    by simp
  also have "\<dots> = card (set (map fst m))"
    by (rule distinct_card [symmetric]) (rule scan_pairs_distinct [OF assms])
  also have "\<dots> = card (key_at pairs ` {i. i < length pairs \<and> succeeded self rt net pairs i})"
    using scan_pairs_keys [OF assms] by simp
  finally show ?thesis .
qed

lemma count_succeeded:
  "length (filter (succeeded self rt net pairs) [0..<length pairs])
     = card {i. i < length pairs \<and> succeeded self rt net pairs i}"
proof -
  have "{i. i < length pairs \<and> succeeded self rt net pairs i}
          = set (filter (succeeded self rt net pairs) [0..<length pairs])"
    by auto
  moreover have "card (set (filter (succeeded self rt net pairs) [0..<length pairs]))
      = length (filter (succeeded self rt net pairs) [0..<length pairs])"
    by (rule distinct_card) simp
  ultimately show ?thesis
    by simp
qed

text \<open>
  Claim C3, as amended. When \<^verbatim>\<open>scan_pairs\<close> returns a mapping, every entry of it is the
  key of some pair of the list together with the record that the fetch of that pair
  returned; and for every pair whose fetch returned \<^verbatim>\<open>None\<close>, its key is in the mapping
  exactly when the fetch at some other position of the list, of a pair with the same
  key, returned a record.
\<close>

theorem scan_keys_are_successes:
  assumes "scan_pairs self rt net pairs delay = (evs, Inr m)"
  shows "(\<forall>k r. (k, r) \<in> set m \<longrightarrow>
            (\<exists>i<length pairs. key_at pairs i = k \<and> fetched self rt net pairs i = Inr (Some r)))
    \<and> (\<forall>i<length pairs. fetched self rt net pairs i = Inr None \<longrightarrow>
          (key_at pairs i \<in> fst ` set m \<longleftrightarrow>
             (\<exists>j<length pairs. j \<noteq> i \<and> key_at pairs j = key_at pairs i
                \<and> (\<exists>r. fetched self rt net pairs j = Inr (Some r)))))"
proof (intro conjI allI impI)
  fix k r
  assume "(k, r) \<in> set m"
  with scan_pairs_distinct [OF assms] have "map_of m k = Some r"
    by simp
  then have "(k, r) \<in> set (rev (successes self rt net pairs))"
    unfolding scan_pairs_lookup [OF assms] by (rule map_of_SomeD)
  then show "\<exists>i<length pairs. key_at pairs i = k \<and> fetched self rt net pairs i = Inr (Some r)"
    by (simp add: set_successes)
next
  fix i
  assume i: "i < length pairs" and failed: "fetched self rt net pairs i = Inr None"
  from failed have not_i: "\<not> succeeded self rt net pairs i"
    by (simp add: succeeded_def)
  have "key_at pairs i \<in> fst ` set m \<longleftrightarrow>
      (\<exists>j<length pairs. key_at pairs j = key_at pairs i \<and> succeeded self rt net pairs j)"
    unfolding scan_pairs_keys [OF assms] image_iff by (auto simp: eq_commute)
  also have "\<dots> \<longleftrightarrow> (\<exists>j<length pairs. j \<noteq> i \<and> key_at pairs j = key_at pairs i
                \<and> (\<exists>r. fetched self rt net pairs j = Inr (Some r)))"
    using not_i unfolding succeeded_iff [symmetric] by blast
  finally show "key_at pairs i \<in> fst ` set m \<longleftrightarrow>
      (\<exists>j<length pairs. j \<noteq> i \<and> key_at pairs j = key_at pairs i
                \<and> (\<exists>r. fetched self rt net pairs j = Inr (Some r)))" .
qed

lemma card_keys_less:
  fixes S :: "nat set"
  assumes "finite S" "i \<in> S" "j \<in> S" "i \<noteq> j" "f i = f j"
  shows "card (f ` S) < card S"
proof -
  from assms(2-5) have "\<not> inj_on f S"
    unfolding inj_on_def by blast
  with assms(1) have "card (f ` S) \<noteq> card S"
    using eq_card_imp_inj_on by blast
  moreover have "card (f ` S) \<le> card S"
    using assms(1) by (rule card_image_le)
  ultimately show ?thesis
    by simp
qed

lemma scan_pairs_fewer:
  assumes scan: "scan_pairs self rt net pairs delay = (evs, Inr m)"
    and "i < j" "j < length pairs" "key_at pairs i = key_at pairs j"
      "succeeded self rt net pairs i" "succeeded self rt net pairs j"
  shows "length m < length (filter (succeeded self rt net pairs) [0..<length pairs])"
proof -
  let ?S = "{i. i < length pairs \<and> succeeded self rt net pairs i}"
  have "finite ?S" by simp
  moreover from assms(2-6) have "i \<in> ?S" "j \<in> ?S" "i \<noteq> j" by simp_all
  ultimately have "card (key_at pairs ` ?S) < card ?S"
    using assms(4) by (rule card_keys_less)
  then show ?thesis
    by (simp only: scan_pairs_length [OF scan] count_succeeded)
qed

lemma scan_pairs_at_most:
  assumes scan: "scan_pairs self rt net pairs delay = (evs, Inr m)"
  shows "length m \<le> length (filter (succeeded self rt net pairs) [0..<length pairs])"
proof -
  let ?S = "{i. i < length pairs \<and> succeeded self rt net pairs i}"
  have "finite ?S" by simp
  then have "card (key_at pairs ` ?S) \<le> card ?S"
    by (rule card_image_le)
  then show ?thesis
    by (simp only: scan_pairs_length [OF scan] count_succeeded)
qed

text \<open>
  Claim C10, as amended. When \<^verbatim>\<open>scan_pairs\<close> returns a mapping, its keys are distinct, so
  a key has one entry; the entry under the key of a successful fetch that no later
  successful fetch with the same key follows holds the record of that fetch; the mapping
  has no more entries than there were successful fetches, and fewer when two successful
  fetches have the same key.
\<close>

theorem scan_last_success_wins:
  assumes "scan_pairs self rt net pairs delay = (evs, Inr m)"
  shows "distinct (map fst m)
    \<and> (\<forall>j<length pairs. \<forall>r.
          fetched self rt net pairs j = Inr (Some r)
          \<and> (\<forall>j'<length pairs. j < j' \<and> key_at pairs j' = key_at pairs j
                \<longrightarrow> \<not> succeeded self rt net pairs j')
          \<longrightarrow> map_of m (key_at pairs j) = Some r)
    \<and> length m \<le> length (filter (succeeded self rt net pairs) [0..<length pairs])
    \<and> (\<forall>i j. i < j \<and> j < length pairs \<and> key_at pairs i = key_at pairs j
          \<and> succeeded self rt net pairs i \<and> succeeded self rt net pairs j
          \<longrightarrow> length m < length (filter (succeeded self rt net pairs) [0..<length pairs]))"
proof (intro conjI allI impI)
  show "distinct (map fst m)"
    by (rule scan_pairs_distinct [OF assms])
next
  fix j r
  assume "j < length pairs"
    and "fetched self rt net pairs j = Inr (Some r)
      \<and> (\<forall>j'<length pairs. j < j' \<and> key_at pairs j' = key_at pairs j
              \<longrightarrow> \<not> succeeded self rt net pairs j')"
  then show "map_of m (key_at pairs j) = Some r"
    unfolding scan_pairs_lookup [OF assms] by (simp add: last_success_lookup)
next
  show "length m \<le> length (filter (succeeded self rt net pairs) [0..<length pairs])"
    by (rule scan_pairs_at_most [OF assms])
next
  fix i j
  assume "i < j \<and> j < length pairs \<and> key_at pairs i = key_at pairs j
        \<and> succeeded self rt net pairs i \<and> succeeded self rt net pairs j"
  then show "length m < length (filter (succeeded self rt net pairs) [0..<length pairs])"
    using scan_pairs_fewer [OF assms, of i j] by simp
qed

section \<open>The requests and pauses of a scan, and example scans\<close>

lemma io_of_simps [simp]:
  "io_of [] = []"
  "io_of (e # evs) = (if is_io e then e # io_of evs else io_of evs)"
  "io_of (evs @ evs') = io_of evs @ io_of evs'"
  by (simp_all add: io_of_def)

lemma is_io_print [simp]: "\<not> is_io (print s)"
  by (simp add: print_def)

lemma try_block_no_io:
  "try_block rt got f t = Inr (out, r) \<Longrightarrow> io_of out = []"
  by (auto simp: try_block_def exn_bind_Inr_iff split: if_splits)

lemma io_get_exchange_rate:
  "io_of (fst (get_exchange_rate self rt http f t)) = [Http_get (request_for self rt f t)]"
  by (auto simp: get_exchange_rate_def Let_def dest: try_block_no_io split: sum.splits)

lemma loop_body_raises:
  assumes "snd (get_exchange_rate self rt http (fst pair) (snd pair)) = Inl e"
  shows "snd (loop_body self rt http delay total_pairs idx pair acc) = Inl e
    \<and> io_of (fst (loop_body self rt http delay total_pairs idx pair acc))
        = [Http_get (request_for self rt (fst pair) (snd pair))]"
  using assms io_get_exchange_rate [of self rt http "fst pair" "snd pair"]
  by (auto simp: loop_body_def Let_def split: prod.splits)

lemma loop_body_returns:
  assumes "snd (get_exchange_rate self rt http (fst pair) (snd pair)) = Inr x"
    and "idx < total_pairs \<longrightarrow> sleep_error rt delay = None"
  shows "snd (loop_body self rt http delay total_pairs idx pair acc)
      = Inr (case x of Some r \<Rightarrow> AList.update (pair_name (fst pair) (snd pair)) r acc | None \<Rightarrow> acc)
    \<and> io_of (fst (loop_body self rt http delay total_pairs idx pair acc))
        = Http_get (request_for self rt (fst pair) (snd pair))
          # (if idx < total_pairs then [Sleep delay] else [])"
  using assms io_get_exchange_rate [of self rt http "fst pair" "snd pair"]
  by (auto simp: loop_body_def Let_def split: prod.splits option.splits)


lemma scan_loop_returns:
  assumes "\<forall>i<length pairs. \<exists>x. fetched self rt net pairs i = Inr x"
    and "sleep_error rt delay = None"
  shows "snd (scan_loop self rt net delay total_pairs idx pairs acc)
           = Inr (fold (\<lambda>(k, r). AList.update k r) (successes self rt net pairs) acc)"
  using assms(1)
proof (induction pairs arbitrary: net idx acc)
  case Nil
  then show ?case by simp
next
  case (Cons pair rest)
  from Cons.prems have "\<exists>x. fetched self rt net (pair # rest) 0 = Inr x"
    by (simp del: all_simps)
  then obtain x where x: "snd (get_exchange_rate self rt (net 0) (fst pair) (snd pair)) = Inr x"
    by (auto simp: fetched_def)
  let ?acc = "case x of Some r \<Rightarrow> AList.update (pair_name (fst pair) (snd pair)) r acc | None \<Rightarrow> acc"
  from loop_body_returns [OF x, of idx total_pairs delay acc] assms(2)
  have body: "snd (loop_body self rt (net 0) delay total_pairs idx pair acc) = Inr ?acc"
    by simp
  have "\<forall>i<length rest. \<exists>x. fetched self rt (\<lambda>k. net (Suc k)) rest i = Inr x"
  proof (intro allI impI)
    fix i assume "i < length rest"
    with Cons.prems have "\<exists>x. fetched self rt net (pair # rest) (Suc i) = Inr x"
      by auto
    then show "\<exists>x. fetched self rt (\<lambda>k. net (Suc k)) rest i = Inr x"
      by (simp add: fetched_def)
  qed
  from Cons.IH [OF this]
  have rest: "snd (scan_loop self rt (\<lambda>k. net (Suc k)) delay total_pairs (Suc idx) rest ?acc)
      = Inr (fold (\<lambda>(k, r). AList.update k r) (successes self rt (\<lambda>k. net (Suc k)) rest) ?acc)" .
  from body rest x show ?case
    by (cases x) (auto split: prod.splits sum.splits)
qed

lemma snd_scan_pairs:
  "snd (scan_pairs self rt net pairs delay)
     = snd (scan_loop self rt net delay (length pairs) 1 pairs [])"
  by (simp add: scan_pairs_def Let_def split: prod.splits)

lemma io_scan_pairs:
  "io_of (fst (scan_pairs self rt net pairs delay))
     = io_of (fst (scan_loop self rt net delay (length pairs) 1 pairs []))"
  by (simp add: scan_pairs_def Let_def split: prod.splits)

lemma scan_pairs_returns:
  assumes "\<forall>i<length pairs. \<exists>x. fetched self rt net pairs i = Inr x"
    and "sleep_error rt delay = None"
  shows "snd (scan_pairs self rt net pairs delay)
           = Inr (fold (\<lambda>(k, r). AList.update k r) (successes self rt net pairs) [])"
  using scan_loop_returns [OF assms, of "length pairs" 1 "[]"]
  by (simp add: snd_scan_pairs)


lemma upper_plain:
  "str_upper (upper_table example_runtime) (ascii ''USD'') = ascii ''USD''"
  "str_upper (upper_table example_runtime) (ascii ''EUR'') = ascii ''EUR''"
  "str_upper (upper_table example_runtime) (ascii ''GBP'') = ascii ''GBP''"
  "str_upper (upper_table example_runtime) (ascii ''USD/EUR'') = ascii ''USD/EUR''"
  "str_upper (upper_table example_runtime) (ascii ''EUR/GBP'') = ascii ''EUR/GBP''"
  by (simp_all add: str_upper_def upper_cp_def ascii_def example_runtime_def)

lemma echo_fetch:
  assumes "decimal_float x = Some v"
  shows "snd (get_exchange_rate self example_runtime (echo_quote x) f t)
     = Inr (Some (echoed_record (str_upper (upper_table example_runtime) f)
                                (str_upper (upper_table example_runtime) t) v))"
  using assms
  by (simp add: get_exchange_rate_def try_block_def build_record_def exn_bind_def
      echo_quote_def ok_response_def quote_body_def quote_object_def raise_for_status_def
      key_error_message_def key_note_def key_quote_def example_runtime_def decimal_examples
      echoed_record_def request_for_def)

lemma error_fetch:
  "snd (get_exchange_rate self rt (\<lambda>req. ok_response error_body) f t) = Inr None"
  by (simp add: get_exchange_rate_def try_block_def exn_bind_def ok_response_def error_body_def
      raise_for_status_def)

lemma null_fetch:
  "snd (get_exchange_rate self example_runtime (null_rate k) f t) = Inl TypeError"
  by (simp add: get_exchange_rate_def try_block_def build_record_def exn_bind_def
      null_rate_def ok_response_def quote_body_def quote_object_def raise_for_status_def
      key_error_message_def key_note_def key_quote_def)

lemma first_fails_simps:
  "first_fails 0 = (\<lambda>req. ok_response error_body)"
  "first_fails (Suc k) = echo_quote (ascii ''0.5'')"
  by (simp_all add: first_fails_def fun_eq_iff)

lemma rising_simps:
  "rising 0 = echo_quote (ascii ''0.25'')"
  "rising (Suc 0) = echo_quote (ascii ''0.5'')"
  "rising (Suc (Suc k)) = echo_quote (ascii ''0.75'')"
  by (simp_all add: rising_def fun_eq_iff)

lemma first_fails_major:
  "fetched example_scanner example_runtime first_fails major_pairs 0 = Inr None"
  "fetched example_scanner example_runtime first_fails major_pairs (Suc 0)
     = Inr (Some (echoed_record (ascii ''USD'') (ascii ''GBP'') (Finite False (1 / 2))))"
  by (simp_all add: fetched_def major_pairs_def first_fails_simps error_fetch
      echo_fetch [OF decimal_examples(1)] upper_plain)

lemma first_fails_slash:
  "fetched example_scanner example_runtime first_fails slash_pairs 0 = Inr None"
  "fetched example_scanner example_runtime first_fails slash_pairs (Suc 0)
     = Inr (Some (echoed_record (ascii ''USD'') (ascii ''EUR/GBP'') (Finite False (1 / 2))))"
  by (simp_all add: fetched_def slash_pairs_def first_fails_simps error_fetch
      echo_fetch [OF decimal_examples(1)] upper_plain)

lemma rising_repeated:
  "fetched example_scanner example_runtime rising repeated_pairs 0
     = Inr (Some (echoed_record (ascii ''USD'') (ascii ''EUR/GBP'') (Finite False (1 / 4))))"
  "fetched example_scanner example_runtime rising repeated_pairs (Suc 0)
     = Inr (Some (echoed_record (ascii ''USD'') (ascii ''EUR/GBP'') (Finite False (1 / 2))))"
  "fetched example_scanner example_runtime rising repeated_pairs 2
     = Inr (Some (echoed_record (ascii ''USD/EUR'') (ascii ''GBP'') (Finite False (3 / 4))))"
  by (simp_all add: fetched_def repeated_pairs_def rising_simps numeral_2_eq_2
      echo_fetch [OF decimal_examples(1)] echo_fetch [OF decimal_examples(2)]
      echo_fetch [OF decimal_examples(3)] upper_plain)

lemma sleep_twelve: "sleep_error example_runtime twelve = None"
  by (simp add: example_runtime_def twelve_def)

lemma all_less_2: "(\<forall>i<2. P i) \<longleftrightarrow> P 0 \<and> P (Suc 0)"
  by (auto simp: less_2_cases_iff)

lemma all_less_3: "(\<forall>i<3. P i) \<longleftrightarrow> P 0 \<and> P (Suc 0) \<and> P (2::nat)"
  by (auto simp: numeral_3_eq_3 less_Suc_eq numeral_2_eq_2)

lemma successes_by_index_2:
  "length pairs = 2 \<Longrightarrow> successes self rt net pairs
     = success_at self rt net pairs 0 @ success_at self rt net pairs (Suc 0)"
  by (simp add: successes_index numeral_2_eq_2)

lemma successes_by_index_3:
  "length pairs = 3 \<Longrightarrow> successes self rt net pairs
     = success_at self rt net pairs 0 @ success_at self rt net pairs (Suc 0)
       @ success_at self rt net pairs 2"
  by (simp add: successes_index numeral_3_eq_3 numeral_2_eq_2)

lemma key_at_examples:
  "key_at major_pairs 0 = ascii ''USD/EUR''"
  "key_at major_pairs (Suc 0) = ascii ''USD/GBP''"
  "key_at slash_pairs 0 = ascii ''USD/EUR/GBP''"
  "key_at slash_pairs (Suc 0) = ascii ''USD/EUR/GBP''"
  "key_at repeated_pairs 0 = ascii ''USD/EUR/GBP''"
  "key_at repeated_pairs (Suc 0) = ascii ''USD/EUR/GBP''"
  "key_at repeated_pairs 2 = ascii ''USD/EUR/GBP''"
  by (simp_all add: key_at_def pair_name_def major_pairs_def slash_pairs_def
      repeated_pairs_def ascii_def numeral_2_eq_2)

lemma scan_first_fails_major:
  "snd (scan_pairs example_scanner example_runtime first_fails major_pairs twelve)
     = Inr [(ascii ''USD/GBP'', echoed_record (ascii ''USD'') (ascii ''GBP'') (Finite False (1 / 2)))]"
proof -
  have len: "length major_pairs = 2"
    by (simp add: major_pairs_def)
  have "\<forall>i<length major_pairs. \<exists>x. fetched example_scanner example_runtime first_fails major_pairs i = Inr x"
    by (simp add: len all_less_2 first_fails_major)
  from scan_pairs_returns [OF this sleep_twelve] show ?thesis
    by (simp add: successes_by_index_2 [OF len] success_at_def first_fails_major key_at_examples)
qed

lemma scan_first_fails_slash:
  "snd (scan_pairs example_scanner example_runtime first_fails slash_pairs twelve)
     = Inr [(ascii ''USD/EUR/GBP'',
             echoed_record (ascii ''USD'') (ascii ''EUR/GBP'') (Finite False (1 / 2)))]"
proof -
  have len: "length slash_pairs = 2"
    by (simp add: slash_pairs_def)
  have "\<forall>i<length slash_pairs. \<exists>x. fetched example_scanner example_runtime first_fails slash_pairs i = Inr x"
    by (simp add: len all_less_2 first_fails_slash)
  from scan_pairs_returns [OF this sleep_twelve] show ?thesis
    by (simp add: successes_by_index_2 [OF len] success_at_def first_fails_slash key_at_examples)
qed

lemma scan_rising_repeated:
  "snd (scan_pairs example_scanner example_runtime rising repeated_pairs twelve)
     = Inr [(ascii ''USD/EUR/GBP'',
             echoed_record (ascii ''USD/EUR'') (ascii ''GBP'') (Finite False (3 / 4)))]"
proof -
  have len: "length repeated_pairs = 3"
    by (simp add: repeated_pairs_def)
  have "\<forall>i<length repeated_pairs. \<exists>x. fetched example_scanner example_runtime rising repeated_pairs i = Inr x"
    by (simp add: len all_less_3 rising_repeated)
  from scan_pairs_returns [OF this sleep_twelve] show ?thesis
    by (simp add: successes_by_index_3 [OF len] success_at_def rising_repeated key_at_examples)
qed


lemma scan_loop_raises_first:
  assumes "snd (get_exchange_rate self rt (net 0) (fst pair) (snd pair)) = Inl e"
  shows "snd (scan_loop self rt net delay total_pairs idx (pair # rest) acc) = Inl e
    \<and> io_of (fst (scan_loop self rt net delay total_pairs idx (pair # rest) acc))
        = [Http_get (request_for self rt (fst pair) (snd pair))]"
  using loop_body_raises [OF assms, of delay total_pairs idx acc]
  by (auto split: prod.splits sum.splits)

lemma scan_loop_io:
  assumes "\<forall>i<length pairs. \<exists>x. fetched self rt net pairs i = Inr x"
    and "sleep_error rt delay = None"
  shows "io_of (fst (scan_loop self rt net delay total_pairs idx pairs acc))
     = concat (map (\<lambda>i. Http_get (request_for self rt (fst (pairs ! i)) (snd (pairs ! i)))
                         # (if idx + i < total_pairs then [Sleep delay] else []))
                   [0..<length pairs])"
  using assms(1)
proof (induction pairs arbitrary: net idx acc)
  case Nil
  then show ?case by simp
next
  case (Cons pair rest)
  from Cons.prems have "\<exists>x. fetched self rt net (pair # rest) 0 = Inr x"
    by (simp del: all_simps)
  then obtain x where x: "snd (get_exchange_rate self rt (net 0) (fst pair) (snd pair)) = Inr x"
    by (auto simp: fetched_def)
  let ?acc = "case x of Some r \<Rightarrow> AList.update (pair_name (fst pair) (snd pair)) r acc | None \<Rightarrow> acc"
  from loop_body_returns [OF x, of idx total_pairs delay acc] assms(2)
  have body: "snd (loop_body self rt (net 0) delay total_pairs idx pair acc) = Inr ?acc"
    "io_of (fst (loop_body self rt (net 0) delay total_pairs idx pair acc))
       = Http_get (request_for self rt (fst pair) (snd pair))
         # (if idx < total_pairs then [Sleep delay] else [])"
    by simp_all
  have "\<forall>i<length rest. \<exists>x. fetched self rt (\<lambda>k. net (Suc k)) rest i = Inr x"
  proof (intro allI impI)
    fix i assume "i < length rest"
    with Cons.prems have "\<exists>x. fetched self rt net (pair # rest) (Suc i) = Inr x"
      by auto
    then show "\<exists>x. fetched self rt (\<lambda>k. net (Suc k)) rest i = Inr x"
      by (simp add: fetched_def)
  qed
  from Cons.IH [OF this]
  have rest: "io_of (fst (scan_loop self rt (\<lambda>k. net (Suc k)) delay total_pairs (Suc idx) rest ?acc))
     = concat (map (\<lambda>i. Http_get (request_for self rt (fst (rest ! i)) (snd (rest ! i)))
                         # (if Suc idx + i < total_pairs then [Sleep delay] else []))
                   [0..<length rest])" .
  have idx: "[0..<length (pair # rest)] = 0 # map Suc [0..<length rest]"
    by (simp add: upt_conv_Cons map_Suc_upt del: upt_Suc)
  from body rest show ?case
    unfolding idx by (auto simp: comp_def split: prod.splits sum.splits)
qed

text \<open>
  When every fetch of a scan returns and \<^verbatim>\<open>time.sleep\<close> accepts the delay, the scan
  sends one request per pair in the order of the list and pauses after each request but
  the last.
\<close>

lemma scan_pairs_io:
  assumes "\<forall>i<length pairs. \<exists>x. fetched self rt net pairs i = Inr x"
    and "sleep_error rt delay = None"
  shows "io_of (fst (scan_pairs self rt net pairs delay))
     = concat (map (\<lambda>i. Http_get (request_for self rt (fst (pairs ! i)) (snd (pairs ! i)))
                         # (if Suc i < length pairs then [Sleep delay] else []))
                   [0..<length pairs])"
  using scan_loop_io [OF assms, of "length pairs" 1 "[]"]
  by (simp add: io_scan_pairs)

text \<open>
  Claim C4 fails on the code. For the two pairs USD/EUR and USD/GBP and a server whose
  quote holds \<^verbatim>\<open>null\<close> under the exchange rate, \<^verbatim>\<open>float(None)\<close> raises a
  \<^verbatim>\<open>TypeError\<close> that neither \<^verbatim>\<open>except\<close> clause catches: the scan ends with that
  exception after one request and no pause, where the claim has two requests and one
  pause.
\<close>

theorem scan_aborts_on_null_rate:
  "snd (scan_pairs example_scanner example_runtime null_rate major_pairs twelve) = Inl TypeError
   \<and> io_of (fst (scan_pairs example_scanner example_runtime null_rate major_pairs twelve))
       = [Http_get (request_for example_scanner example_runtime (ascii ''USD'') (ascii ''EUR''))]
   \<and> length major_pairs = 2"
proof -
  have "snd (scan_loop example_scanner example_runtime null_rate twelve (length major_pairs) 1
               major_pairs []) = Inl TypeError
    \<and> io_of (fst (scan_loop example_scanner example_runtime null_rate twelve (length major_pairs) 1
               major_pairs []))
       = [Http_get (request_for example_scanner example_runtime (ascii ''USD'') (ascii ''EUR''))]"
    unfolding major_pairs_def
    using scan_loop_raises_first
      [of example_scanner example_runtime null_rate "(ascii ''USD'', ascii ''EUR'')" TypeError
          twelve "length [(ascii ''USD'', ascii ''EUR''), (ascii ''USD'', ascii ''GBP'')]" 1
          "[(ascii ''USD'', ascii ''GBP'')]" "[]"]
    by (simp add: null_fetch del: scan_loop.simps)
  then show ?thesis
    by (simp add: snd_scan_pairs io_scan_pairs major_pairs_def del: scan_loop.simps)
qed

theorem scan_keys_are_successes_witness:
  "snd (scan_pairs example_scanner example_runtime first_fails major_pairs twelve)
     = Inr [(ascii ''USD/GBP'', echoed_record (ascii ''USD'') (ascii ''GBP'') (Finite False (1 / 2)))]
   \<and> (\<exists>i<length major_pairs. key_at major_pairs i = ascii ''USD/GBP''
         \<and> fetched example_scanner example_runtime first_fails major_pairs i
             = Inr (Some (echoed_record (ascii ''USD'') (ascii ''GBP'') (Finite False (1 / 2)))))
   \<and> fetched example_scanner example_runtime first_fails major_pairs 0 = Inr None
   \<and> key_at major_pairs 0
        \<notin> fst ` set [(ascii ''USD/GBP'',
                       echoed_record (ascii ''USD'') (ascii ''GBP'') (Finite False (1 / 2)))]"
proof -
  let ?r = "echoed_record (ascii ''USD'') (ascii ''GBP'') (Finite False (1 / 2))"
  let ?scan = "scan_pairs example_scanner example_runtime first_fails major_pairs twelve"
  have scan: "?scan = (fst ?scan, Inr [(ascii ''USD/GBP'', ?r)])"
    by (simp add: prod_eq_iff scan_first_fails_major)
  from scan_keys_are_successes [OF scan]
  have "\<exists>i<length major_pairs. key_at major_pairs i = ascii ''USD/GBP''
         \<and> fetched example_scanner example_runtime first_fails major_pairs i = Inr (Some ?r)"
    by simp
  then show ?thesis
    by (simp add: scan_first_fails_major first_fails_major key_at_examples)
qed

text \<open>
  Claim C3 as stated fails: the fetch of the pair (USD/EUR, GBP) fails, no other fetch of
  that pair is made, and its key USD/EUR/GBP is in the mapping, put there by the fetch of
  the different pair (USD, EUR/GBP).
\<close>

theorem scan_key_of_other_pair:
  "snd (scan_pairs example_scanner example_runtime first_fails slash_pairs twelve)
     = Inr [(ascii ''USD/EUR/GBP'',
             echoed_record (ascii ''USD'') (ascii ''EUR/GBP'') (Finite False (1 / 2)))]
   \<and> fetched example_scanner example_runtime first_fails slash_pairs 0 = Inr None
   \<and> key_at slash_pairs 0 = ascii ''USD/EUR/GBP''
   \<and> length slash_pairs = 2
   \<and> slash_pairs ! 1 \<noteq> slash_pairs ! 0"
proof (intro conjI)
  show "snd (scan_pairs example_scanner example_runtime first_fails slash_pairs twelve)
     = Inr [(ascii ''USD/EUR/GBP'',
             echoed_record (ascii ''USD'') (ascii ''EUR/GBP'') (Finite False (1 / 2)))]"
    by (rule scan_first_fails_slash)
  show "fetched example_scanner example_runtime first_fails slash_pairs 0 = Inr None"
    by (rule first_fails_slash)
  show "key_at slash_pairs 0 = ascii ''USD/EUR/GBP''"
    by (rule key_at_examples)
  show "length slash_pairs = 2"
    by (simp add: slash_pairs_def)
  show "slash_pairs ! 1 \<noteq> slash_pairs ! 0"
    by (simp add: slash_pairs_def)
qed

theorem scan_last_success_wins_witness:
  "snd (scan_pairs example_scanner example_runtime rising repeated_pairs twelve)
     = Inr [(ascii ''USD/EUR/GBP'',
             echoed_record (ascii ''USD/EUR'') (ascii ''GBP'') (Finite False (3 / 4)))]
   \<and> key_at repeated_pairs 2 = ascii ''USD/EUR/GBP''
   \<and> map_of [(ascii ''USD/EUR/GBP'',
               echoed_record (ascii ''USD/EUR'') (ascii ''GBP'') (Finite False (3 / 4)))]
        (key_at repeated_pairs 2)
       = Some (echoed_record (ascii ''USD/EUR'') (ascii ''GBP'') (Finite False (3 / 4)))
   \<and> length [(ascii ''USD/EUR/GBP'',
               echoed_record (ascii ''USD/EUR'') (ascii ''GBP'') (Finite False (3 / 4)))]
       < length (filter (succeeded example_scanner example_runtime rising repeated_pairs)
                   [0..<length repeated_pairs])"
proof -
  let ?r = "echoed_record (ascii ''USD/EUR'') (ascii ''GBP'') (Finite False (3 / 4))"
  let ?m = "[(ascii ''USD/EUR/GBP'', ?r)]"
  let ?scan = "scan_pairs example_scanner example_runtime rising repeated_pairs twelve"
  have len: "length repeated_pairs = 3"
    by (simp add: repeated_pairs_def)
  have scan: "?scan = (fst ?scan, Inr ?m)"
    by (simp add: prod_eq_iff scan_rising_repeated)
  note wins = scan_last_success_wins [OF scan]
  from wins have "\<forall>j<length repeated_pairs. \<forall>r.
          fetched example_scanner example_runtime rising repeated_pairs j = Inr (Some r)
          \<and> (\<forall>j'<length repeated_pairs. j < j' \<and> key_at repeated_pairs j' = key_at repeated_pairs j
                \<longrightarrow> \<not> succeeded example_scanner example_runtime rising repeated_pairs j')
          \<longrightarrow> map_of ?m (key_at repeated_pairs j) = Some r"
    by blast
  then have last: "map_of ?m (key_at repeated_pairs 2) = Some ?r"
    by (simp add: len rising_repeated)
  from wins have "\<forall>i j. i < j \<and> j < length repeated_pairs
          \<and> key_at repeated_pairs i = key_at repeated_pairs j
          \<and> succeeded example_scanner example_runtime rising repeated_pairs i
          \<and> succeeded example_scanner example_runtime rising repeated_pairs j
          \<longrightarrow> length ?m < length (filter (succeeded example_scanner example_runtime rising repeated_pairs)
                                [0..<length repeated_pairs])"
    by blast
  then have "0 < Suc 0 \<and> Suc 0 < length repeated_pairs
          \<and> key_at repeated_pairs 0 = key_at repeated_pairs (Suc 0)
          \<and> succeeded example_scanner example_runtime rising repeated_pairs 0
          \<and> succeeded example_scanner example_runtime rising repeated_pairs (Suc 0)
          \<longrightarrow> length ?m < length (filter (succeeded example_scanner example_runtime rising repeated_pairs)
                                [0..<length repeated_pairs])"
    by blast
  then have fewer: "length ?m < length (filter (succeeded example_scanner example_runtime rising repeated_pairs)
                                [0..<length repeated_pairs])"
    by (simp add: len key_at_examples succeeded_def rising_repeated)
  from last fewer show ?thesis
    by (simp add: scan_rising_repeated key_at_examples)
qed

text \<open>
  Claim C10 as stated fails: the pair (USD, EUR/GBP) occurs twice and both fetches
  succeed, yet the entry under its key holds the record of the later fetch of the
  different pair (USD/EUR, GBP), not the record of the last successful fetch of the pair.
\<close>

theorem scan_last_success_of_other_pair:
  "snd (scan_pairs example_scanner example_runtime rising repeated_pairs twelve)
     = Inr [(ascii ''USD/EUR/GBP'',
             echoed_record (ascii ''USD/EUR'') (ascii ''GBP'') (Finite False (3 / 4)))]
   \<and> repeated_pairs ! 0 = repeated_pairs ! 1
   \<and> repeated_pairs ! 2 \<noteq> repeated_pairs ! 1
   \<and> length repeated_pairs = 3
   \<and> key_at repeated_pairs 1 = ascii ''USD/EUR/GBP''
   \<and> fetched example_scanner example_runtime rising repeated_pairs 0
       = Inr (Some (echoed_record (ascii ''USD'') (ascii ''EUR/GBP'') (Finite False (1 / 4))))
   \<and> fetched example_scanner example_runtime rising repeated_pairs 1
       = Inr (Some (echoed_record (ascii ''USD'') (ascii ''EUR/GBP'') (Finite False (1 / 2))))
   \<and> echoed_record (ascii ''USD'') (ascii ''EUR/GBP'') (Finite False (1 / 2))
       \<noteq> echoed_record (ascii ''USD/EUR'') (ascii ''GBP'') (Finite False (3 / 4))"
proof (intro conjI)
  show "snd (scan_pairs example_scanner example_runtime rising repeated_pairs twelve)
     = Inr [(ascii ''USD/EUR/GBP'',
             echoed_record (ascii ''USD/EUR'') (ascii ''GBP'') (Finite False (3 / 4)))]"
    by (rule scan_rising_repeated)
  show "repeated_pairs ! 0 = repeated_pairs ! 1"
    by (simp add: repeated_pairs_def)
  show "repeated_pairs ! 2 \<noteq> repeated_pairs ! 1"
    by (simp add: repeated_pairs_def)
  show "length repeated_pairs = 3"
    by (simp add: repeated_pairs_def)
  show "key_at repeated_pairs 1 = ascii ''USD/EUR/GBP''"
    by (simp add: key_at_examples)
  show "fetched example_scanner example_runtime rising repeated_pairs 0
       = Inr (Some (echoed_record (ascii ''USD'') (ascii ''EUR/GBP'') (Finite False (1 / 4))))"
    by (rule rising_repeated)
  show "fetched example_scanner example_runtime rising repeated_pairs 1
       = Inr (Some (echoed_record (ascii ''USD'') (ascii ''EUR/GBP'') (Finite False (1 / 2))))"
    by (simp add: rising_repeated)
  show "echoed_record (ascii ''USD'') (ascii ''EUR/GBP'') (Finite False (1 / 2))
       \<noteq> echoed_record (ascii ''USD/EUR'') (ascii ''GBP'') (Finite False (3 / 4))"
    by (simp add: echoed_record_def)
qed

section \<open>Properties of \<^verbatim>\<open>display_results\<close>\<close>

lemma display_results_nonempty:
  assumes "results \<noteq> []"
  shows "\<exists>tail. \<forall>self now.
           fst (display_results self rt now results)
             = print (10 # replicate 70 61)
               # print (128202 # ascii '' FOREX SCANNER RESULTS - '' @ now) # tail"
proof (cases "table_rows rt results")
  case (Pair rows res)
  with assms show ?thesis
    by (cases res) (auto simp: display_results_def Let_def)
qed

lemma display_results_outcome:
  "snd (display_results self rt now results) = snd (display_results self' rt now' results)"
  by (auto simp: display_results_def Let_def split: prod.splits sum.splits)

lemma display_results_empty:
  "display_results self rt now [] = display_results self' rt now' []"
  by (simp add: display_results_def)

lemma print_eq_iff [simp]: "print s = print s' \<longleftrightarrow> s = s'"
  by (simp add: print_def)

text \<open>
  Claim C2, as amended. The output of \<^verbatim>\<open>display_results\<close> depends on the mapping and on
  the reading of the clock: for the empty mapping two calls write the same text; for a
  mapping that is not empty two calls write the same exactly when the two clock readings
  are the same text; in both cases the two outputs agree everywhere but on the second
  line written, the title with the time stamp, and the two calls end the same way.
\<close>

theorem display_results_clock:
  "(results = [] \<longrightarrow> display_results self rt now results = display_results self' rt now' results)
   \<and> (results \<noteq> [] \<longrightarrow>
        (fst (display_results self rt now results) = fst (display_results self' rt now' results))
          = (now = now'))
   \<and> (fst (display_results self rt now results))[1 := e]
       = (fst (display_results self' rt now' results))[1 := e]
   \<and> snd (display_results self rt now results) = snd (display_results self' rt now' results)"
proof (intro conjI impI)
  assume "results = []"
  then show "display_results self rt now results = display_results self' rt now' results"
    by (simp add: display_results_empty)
next
  assume "results \<noteq> []"
  from display_results_nonempty [OF this, of rt] obtain tail where
    "\<forall>self now. fst (display_results self rt now results)
             = print (10 # replicate 70 61)
               # print (128202 # ascii '' FOREX SCANNER RESULTS - '' @ now) # tail"
    by blast
  then show "(fst (display_results self rt now results) = fst (display_results self' rt now' results))
          = (now = now')"
    by simp
next
  show "(fst (display_results self rt now results))[1 := e]
       = (fst (display_results self' rt now' results))[1 := e]"
  proof (cases "results = []")
    case True
    then show ?thesis
      by (simp add: display_results_empty [of self rt now self' now'])
  next
    case False
    from display_results_nonempty [OF this, of rt] obtain tail where
      "\<forall>self now. fst (display_results self rt now results)
             = print (10 # replicate 70 61)
               # print (128202 # ascii '' FOREX SCANNER RESULTS - '' @ now) # tail"
      by blast
    then show ?thesis
      by simp
  qed
next
  show "snd (display_results self rt now results) = snd (display_results self' rt now' results)"
    by (rule display_results_outcome)
qed

lemma written_print [simp]: "written (print s # evs) = s @ 10 # written evs"
  by (simp add: print_def)

lemma display_text_differs:
  assumes "results \<noteq> []" "length now = length now'" "now \<noteq> now'"
  shows "written (fst (display_results self rt now results))
           \<noteq> written (fst (display_results self' rt now' results))"
proof -
  from display_results_nonempty [OF assms(1), of rt] obtain tail where
    "\<forall>self now. fst (display_results self rt now results)
             = print (10 # replicate 70 61)
               # print (128202 # ascii '' FOREX SCANNER RESULTS - '' @ now) # tail"
    by blast
  with assms(2,3) show ?thesis
    by simp
qed

lemma three_halves_nonempty: "three_halves \<noteq> []"
  by (simp add: three_halves_def)

lemma clock_readings: "length midnight = length one_second_later" "midnight \<noteq> one_second_later"
  by (simp_all add: midnight_def one_second_later_def)

theorem display_results_clock_witness:
  "display_results example_scanner example_runtime midnight []
     = display_results example_scanner example_runtime one_second_later []
   \<and> fst (display_results example_scanner example_runtime midnight three_halves)
       \<noteq> fst (display_results example_scanner example_runtime one_second_later three_halves)
   \<and> (fst (display_results example_scanner example_runtime midnight three_halves))[1 := print []]
       = (fst (display_results example_scanner example_runtime one_second_later three_halves))
           [1 := print []]"
  using display_results_clock
      [of "[]" example_scanner example_runtime midnight example_scanner one_second_later "print []"]
    display_results_clock
      [of three_halves example_scanner example_runtime midnight example_scanner one_second_later
          "print []"]
    three_halves_nonempty clock_readings
  by blast

text \<open>
  Claim C2 as stated fails: two calls on the same mapping of three entries, one second
  apart, write different texts.
\<close>

theorem display_results_twice_differs:
  "written (fst (display_results example_scanner example_runtime midnight three_halves))
     \<noteq> written (fst (display_results example_scanner example_runtime one_second_later
                       three_halves))"
  using three_halves_nonempty clock_readings by (rule display_text_differs)

section \<open>The cache\<close>

lemma request_for_cache [simp]:
  "request_for (self\<lparr>cache := c\<rparr>) rt f t = request_for self rt f t"
  by (simp add: request_for_def)

lemma get_exchange_rate_cache [simp]:
  "get_exchange_rate (self\<lparr>cache := c\<rparr>) rt http f t = get_exchange_rate self rt http f t"
  by (simp add: get_exchange_rate_def)

lemma loop_body_cache [simp]:
  "loop_body (self\<lparr>cache := c\<rparr>) rt http delay total_pairs idx pair acc
     = loop_body self rt http delay total_pairs idx pair acc"
  by (simp add: loop_body_def)

lemma scan_loop_cache [simp]:
  "scan_loop (self\<lparr>cache := c\<rparr>) rt net delay total_pairs idx pairs acc
     = scan_loop self rt net delay total_pairs idx pairs acc"
  by (induction pairs arbitrary: net idx acc) simp_all

lemma scan_pairs_cache [simp]:
  "scan_pairs (self\<lparr>cache := c\<rparr>) rt net pairs delay = scan_pairs self rt net pairs delay"
  by (simp add: scan_pairs_def)

lemma display_results_cache [simp]:
  "display_results (self\<lparr>cache := c\<rparr>) rt now results = display_results self rt now results"
  by (simp add: display_results_def)

lemma calculate_arbitrage_cache [simp]:
  "calculate_arbitrage (self\<lparr>cache := c\<rparr>) results = calculate_arbitrage self results"
  by (simp add: calculate_arbitrage_def)

lemma run_call_self: "fst (run_call rt net self c) = self"
  by (cases c) (simp_all add: run_call_def split: prod.splits sum.splits)

lemma run_call_cache:
  "snd (run_call rt net (self\<lparr>cache := c\<rparr>) cl) = snd (run_call rt net self cl)"
  by (cases cl) (simp_all add: run_call_def split: prod.splits sum.splits)

lemma run_calls_self: "fst (run_calls rt net self calls) = self"
proof (induction calls arbitrary: net)
  case Nil
  then show ?case by simp
next
  case (Cons cl calls)
  obtain self' evs out where step: "run_call rt net self cl = (self', evs, out)"
    by (cases "run_call rt net self cl") auto
  with run_call_self [of rt net self cl] have "self' = self"
    by simp
  with step Cons.IH [of "\<lambda>k. net (k + length (filter is_request evs))"] show ?case
    by (auto split: prod.splits)
qed

lemma run_calls_cache:
  "snd (run_calls rt net (self\<lparr>cache := c\<rparr>) calls) = snd (run_calls rt net self calls)"
proof (induction calls arbitrary: net)
  case Nil
  then show ?case by simp
next
  case (Cons cl calls)
  obtain self' evs out where step: "run_call rt net self cl = (self', evs, out)"
    by (cases "run_call rt net self cl") auto
  with run_call_self [of rt net self cl] have self': "self' = self"
    by simp
  from step run_call_cache [where self = self and c = c and cl = cl and rt = rt and net = net]
    run_call_self [of rt net "self\<lparr>cache := c\<rparr>" cl]
  have step': "run_call rt net (self\<lparr>cache := c\<rparr>) cl = (self\<lparr>cache := c\<rparr>, evs, out)"
    by (simp add: prod_eq_iff)
  from step step' self' Cons.IH [of "\<lambda>k. net (k + length (filter is_request evs))"] show ?case
    by (auto simp: prod_eq_iff split: prod.splits)
qed

text \<open>
  Claim C9. For every sequence of calls of \<^verbatim>\<open>get_exchange_rate\<close>, \<^verbatim>\<open>scan_pairs\<close>,
  \<^verbatim>\<open>display_results\<close> and \<^verbatim>\<open>calculate_arbitrage\<close> on a scanner, the cache of a newly
  made scanner is still the empty dictionary afterwards, and the scanner is unchanged;
  what the calls write and return is the same whatever the cache holds; and a fetch sends
  its request whatever the cache holds, so that no result comes from the cache.
\<close>

theorem cache_never_used:
  "cache (fst (run_calls rt net (init key) calls)) = []
   \<and> fst (run_calls rt net self calls) = self
   \<and> snd (run_calls rt net (self\<lparr>cache := c\<rparr>) calls) = snd (run_calls rt net self calls)
   \<and> get_exchange_rate (self\<lparr>cache := c\<rparr>) rt http f t = get_exchange_rate self rt http f t
   \<and> io_of (fst (get_exchange_rate (self\<lparr>cache := c\<rparr>) rt http f t))
       = [Http_get (request_for self rt f t)]"
  by (simp add: run_calls_self run_calls_cache io_get_exchange_rate init_def)

section \<open>Properties of the arbitrage heuristic\<close>

lemma inner_loop_append:
  "inner_loop pair1 rate1 d opps =
     opps @ [(pair1, pair2, spread_of rate1 rate2).
               (pair2, rate2) \<leftarrow> d, pair1 \<noteq> pair2, float_gt (spread_of rate1 rate2) threshold]"
  by (induction d arbitrary: opps) (auto simp: Let_def)

lemma outer_loop_append:
  "outer_loop xs d opps =
     opps @ [(pair1, pair2, spread_of rate1 rate2).
               (pair1, rate1) \<leftarrow> xs, (pair2, rate2) \<leftarrow> d,
               pair1 \<noteq> pair2, float_gt (spread_of rate1 rate2) threshold]"
  by (induction xs arbitrary: opps) (auto simp: inner_loop_append)

lemma opportunities_discovery_order: "opportunities results = discovery_order results"
  by (simp add: opportunities_def discovery_order_def outer_loop_append Let_def)

lemma opportunities_iff:
  "(p1, p2, s) \<in> set (opportunities results) \<longleftrightarrow>
     (\<exists>d1 d2. (p1, d1) \<in> set results \<and> (p2, d2) \<in> set results \<and> p1 \<noteq> p2
        \<and> s = spread_of (rate d1) (rate d2) \<and> float_gt s threshold)"
  by (force simp: opportunities_discovery_order discovery_order_def pairs_dict_def)

lemma threshold_value: "threshold = Finite False (5764607523034235 / 576460752303423488)"
  unfolding threshold_def by code_simp

lemma spread_half: "spread_of (Finite False (1 / 2)) (Finite False (1 / 2)) = Finite False (3 / 4)"
  unfolding spread_of_def by code_simp

lemma opportunities_three_halves:
  "opportunities three_halves =
     [(ascii ''USD/EUR'', ascii ''EUR/USD'', Finite False (3 / 4)),
      (ascii ''USD/EUR'', ascii ''USD/GBP'', Finite False (3 / 4)),
      (ascii ''EUR/USD'', ascii ''USD/EUR'', Finite False (3 / 4)),
      (ascii ''EUR/USD'', ascii ''USD/GBP'', Finite False (3 / 4)),
      (ascii ''USD/GBP'', ascii ''USD/EUR'', Finite False (3 / 4)),
      (ascii ''USD/GBP'', ascii ''EUR/USD'', Finite False (3 / 4))]"
  by (simp add: three_halves_def example_quote_def opportunities_def pairs_dict_def
      spread_half threshold_value ascii_def Let_def)

lemma finding_line_text:
  "finding_line =
     (\<lambda>(p1, p2, spread).
        print (ascii ''  '' @ [8226] @ ascii '' '' @ p1 @ ascii '' '' @ [215] @ ascii '' '' @ p2
               @ ascii '' - Spread: '' @ format_f 4 spread))"
  by (rule ext) (simp add: finding_line_def)

lemma format_three_quarters: "format_f 4 (Finite False (3 / 4)) = ascii ''0.7500''"
  by (simp add: round_half_even_def str_int_def str_digits.simps zfill_def ascii_def)

text \<open>
  Claim C6. For every result mapping, the findings that \<^verbatim>\<open>calculate_arbitrage\<close> shows
  (\<^verbatim>\<open>opportunities[:5]\<close>) are at most five, none of them pairs a key with itself, and
  they are the first five, or all when there are fewer, of the findings in discovery
  order, the outer loop before the inner one. What \<^verbatim>\<open>calculate_arbitrage\<close> writes is its
  heading, then, when there is a finding, the notice and one line for each of those first
  five findings in that order, with the two keys and the spread to four decimals, or else
  the line that no opportunity was detected, then an empty line.
\<close>

theorem calculate_arbitrage_first_five:
  "length (shown_opportunities results) \<le> 5
   \<and> (\<forall>f \<in> set (shown_opportunities results). fst f \<noteq> fst (snd f))
   \<and> shown_opportunities results = take 5 (discovery_order results)
   \<and> calculate_arbitrage self results =
       [print (128161 # ascii '' Arbitrage Analysis:''), print (replicate 70 45)]
       @ (if discovery_order results \<noteq> []
          then print (9888 # 65039
                 # ascii ''  Potential opportunities detected (further analysis required):'')
               # map (\<lambda>(p1, p2, spread).
                        print (ascii ''  '' @ [8226] @ ascii '' '' @ p1 @ ascii '' '' @ [215]
                               @ ascii '' '' @ p2 @ ascii '' - Spread: '' @ format_f 4 spread))
                     (take 5 (discovery_order results))
          else [print (10003 # ascii '' No significant arbitrage opportunities detected'')])
       @ [print []]"
proof -
  have "fst f \<noteq> fst (snd f)" if "f \<in> set (shown_opportunities results)" for f
  proof -
    obtain p1 p2 s where f: "f = (p1, p2, s)"
      by (cases f) auto
    from that have "f \<in> set (opportunities results)"
      unfolding shown_opportunities_def by (rule in_set_takeD)
    with f have "p1 \<noteq> p2"
      by (auto simp: opportunities_iff)
    with f show ?thesis
      by simp
  qed
  moreover have "calculate_arbitrage self results =
       [print (128161 # ascii '' Arbitrage Analysis:''), print (replicate 70 45)]
       @ (if discovery_order results \<noteq> []
          then print (9888 # 65039
                 # ascii ''  Potential opportunities detected (further analysis required):'')
               # map (\<lambda>(p1, p2, spread).
                        print (ascii ''  '' @ [8226] @ ascii '' '' @ p1 @ ascii '' '' @ [215]
                               @ ascii '' '' @ p2 @ ascii '' - Spread: '' @ format_f 4 spread))
                     (take 5 (discovery_order results))
          else [print (10003 # ascii '' No significant arbitrage opportunities detected'')])
       @ [print []]"
    unfolding calculate_arbitrage_def shown_opportunities_def opportunities_discovery_order
      finding_line_text ..
  ultimately show ?thesis
    by (simp add: shown_opportunities_def opportunities_discovery_order)
qed

theorem calculate_arbitrage_first_five_witness:
  "length (opportunities three_halves) = 6
   \<and> length (shown_opportunities three_halves) = 5
   \<and> (ascii ''USD/EUR'', ascii ''EUR/USD'', Finite False (3 / 4))
         \<in> set (shown_opportunities three_halves)
   \<and> ascii ''USD/EUR'' \<noteq> ascii ''EUR/USD''
   \<and> shown_opportunities three_halves = take 5 (discovery_order three_halves)
   \<and> calculate_arbitrage example_scanner three_halves =
       [print (128161 # ascii '' Arbitrage Analysis:''), print (replicate 70 45),
        print (9888 # 65039
               # ascii ''  Potential opportunities detected (further analysis required):''),
        print (ascii ''  '' @ [8226] @ ascii '' USD/EUR '' @ [215] @ ascii '' EUR/USD - Spread: 0.7500''),
        print (ascii ''  '' @ [8226] @ ascii '' USD/EUR '' @ [215] @ ascii '' USD/GBP - Spread: 0.7500''),
        print (ascii ''  '' @ [8226] @ ascii '' EUR/USD '' @ [215] @ ascii '' USD/EUR - Spread: 0.7500''),
        print (ascii ''  '' @ [8226] @ ascii '' EUR/USD '' @ [215] @ ascii '' USD/GBP - Spread: 0.7500''),
        print (ascii ''  '' @ [8226] @ ascii '' USD/GBP '' @ [215] @ ascii '' USD/EUR - Spread: 0.7500''),
        print []]"
proof -
  have six: "length (opportunities three_halves) = 6"
    by (simp add: opportunities_three_halves)
  have five: "length (shown_opportunities three_halves) = 5"
    by (simp add: shown_opportunities_def opportunities_three_halves)
  have shown: "(ascii ''USD/EUR'', ascii ''EUR/USD'', Finite False (3 / 4))
         \<in> set (shown_opportunities three_halves)"
    by (simp add: shown_opportunities_def opportunities_three_halves)
  note first_five = calculate_arbitrage_first_five [of three_halves example_scanner]
  from shown first_five have distinct_keys: "ascii ''USD/EUR'' \<noteq> ascii ''EUR/USD''"
    by fastforce
  from first_five have order: "shown_opportunities three_halves = take 5 (discovery_order three_halves)"
    by blast
  have found: "discovery_order three_halves \<noteq> []"
    using six by (auto simp: opportunities_discovery_order)
  from first_five have "calculate_arbitrage example_scanner three_halves =
       [print (128161 # ascii '' Arbitrage Analysis:''), print (replicate 70 45)]
       @ (if discovery_order three_halves \<noteq> []
          then print (9888 # 65039
                 # ascii ''  Potential opportunities detected (further analysis required):'')
               # map (\<lambda>(p1, p2, spread).
                        print (ascii ''  '' @ [8226] @ ascii '' '' @ p1 @ ascii '' '' @ [215]
                               @ ascii '' '' @ p2 @ ascii '' - Spread: '' @ format_f 4 spread))
                     (take 5 (discovery_order three_halves))
          else [print (10003 # ascii '' No significant arbitrage opportunities detected'')])
       @ [print []]"
    by blast
  then have printed: "calculate_arbitrage example_scanner three_halves =
       [print (128161 # ascii '' Arbitrage Analysis:''), print (replicate 70 45),
        print (9888 # 65039
               # ascii ''  Potential opportunities detected (further analysis required):''),
        print (ascii ''  '' @ [8226] @ ascii '' USD/EUR '' @ [215] @ ascii '' EUR/USD - Spread: 0.7500''),
        print (ascii ''  '' @ [8226] @ ascii '' USD/EUR '' @ [215] @ ascii '' USD/GBP - Spread: 0.7500''),
        print (ascii ''  '' @ [8226] @ ascii '' EUR/USD '' @ [215] @ ascii '' USD/EUR - Spread: 0.7500''),
        print (ascii ''  '' @ [8226] @ ascii '' EUR/USD '' @ [215] @ ascii '' USD/GBP - Spread: 0.7500''),
        print (ascii ''  '' @ [8226] @ ascii '' USD/GBP '' @ [215] @ ascii '' USD/EUR - Spread: 0.7500''),
        print []]"
    unfolding opportunities_discovery_order [symmetric] opportunities_three_halves
    by (simp add: format_three_quarters ascii_def del: format_f.simps)
  from six five shown distinct_keys order printed show ?thesis
    by blast
qed

text \<open>
  Claim C7. For every result mapping, a triple is appended to \<^verbatim>\<open>opportunities\<close> exactly
  when it consists of the keys of two entries with different keys and of their spread
  \<^verbatim>\<open>abs(rate1 * rate2 - 1.0)\<close>, and that spread is greater than 0.01; both orders of two
  entries are examined. For two entries \<^verbatim>\<open>USD/EUR\<close> and \<^verbatim>\<open>EUR/USD\<close> of rate 0.5 the
  findings shown are both orders, each with spread 0.75.
\<close>

theorem opportunities_spread_threshold:
  "((p1, p2, s) \<in> set (opportunities results) \<longleftrightarrow>
      (\<exists>d1 d2. (p1, d1) \<in> set results \<and> (p2, d2) \<in> set results \<and> p1 \<noteq> p2
         \<and> s = float_abs (float_sub (float_mul (rate d1) (rate d2)) (Finite False 1))
         \<and> float_gt s (float_of_rat (1 / 100))))
   \<and> shown_opportunities
        [(ascii ''USD/EUR'', d\<lparr>rate := Finite False (1 / 2)\<rparr>),
         (ascii ''EUR/USD'', d'\<lparr>rate := Finite False (1 / 2)\<rparr>)]
      = [(ascii ''USD/EUR'', ascii ''EUR/USD'', Finite False (3 / 4)),
         (ascii ''EUR/USD'', ascii ''USD/EUR'', Finite False (3 / 4))]"
proof
  show "(p1, p2, s) \<in> set (opportunities results) \<longleftrightarrow>
      (\<exists>d1 d2. (p1, d1) \<in> set results \<and> (p2, d2) \<in> set results \<and> p1 \<noteq> p2
         \<and> s = float_abs (float_sub (float_mul (rate d1) (rate d2)) (Finite False 1))
         \<and> float_gt s (float_of_rat (1 / 100)))"
    unfolding opportunities_iff spread_of_def threshold_def ..
  show "shown_opportunities
        [(ascii ''USD/EUR'', d\<lparr>rate := Finite False (1 / 2)\<rparr>),
         (ascii ''EUR/USD'', d'\<lparr>rate := Finite False (1 / 2)\<rparr>)]
      = [(ascii ''USD/EUR'', ascii ''EUR/USD'', Finite False (3 / 4)),
         (ascii ''EUR/USD'', ascii ''USD/EUR'', Finite False (3 / 4))]"
    by (simp add: shown_opportunities_def opportunities_def pairs_dict_def spread_half
        threshold_value ascii_def Let_def)
qed

text \<open>
  Claim C8. For the empty result mapping, \<^verbatim>\<open>display_results\<close> writes the notice that
  there are no results and nothing else, the list of opportunities, with the part of it
  that is shown, is empty, and \<^verbatim>\<open>calculate_arbitrage\<close> writes its heading and the line
  that no opportunity was detected.
\<close>

theorem empty_results:
  "display_results self rt now [] =
     ([Write (10 # 10060 # ascii '' No results to display'' @ [10])], Inr ())
   \<and> opportunities [] = [] \<and> shown_opportunities [] = []
   \<and> calculate_arbitrage self [] =
       [print (128161 # ascii '' Arbitrage Analysis:''), print (replicate 70 45),
        print (10003 # ascii '' No significant arbitrage opportunities detected''), print []]"
  by (simp add: display_results_def print_def shown_opportunities_def opportunities_def
      pairs_dict_def calculate_arbitrage_def)

end
